theory Spec2Isabelle
  imports Main "HOL-Library.Word"
begin

unbundle bit_operations_syntax

section \<open>Values and errors\<close>

text \<open>
  The script \<^verbatim>\<open>parse_satcat_UCS_for_bounty.py\<close> moves cells between two pandas frames.
  A cell is one of the Python values the script produces or reads: \<^verbatim>\<open>None\<close>, an
  \<^verbatim>\<open>int\<close> (unbounded), a \<^verbatim>\<open>float\<close>, a \<^verbatim>\<open>datetime.date\<close> or a \<^verbatim>\<open>str\<close>.

  A string is a list of characters with code points below 256. A float is kept as a
  decimal that denotes it: \<open>Dec neg m e\<close> stands for the double nearest to
  \<open>\<plusminus> m * 10 ^ e\<close>. The double itself is computed where its value matters
  (\<open>float_integral\<close>, \<open>float_repr\<close>); two decimals that round to one double are
  different values of this type. Booleans do not occur: the catalogues have none.
\<close>

datatype pyfloat = Dec bool nat int | Inf bool | NaN

datatype pyval = PNone | PInt int | PFloat pyfloat | PDate nat nat nat | PStr string

datatype py_error = IndexError | KeyError | ValueError | AttributeError

section \<open>Library functions on strings\<close>

definition is_digit :: "char \<Rightarrow> bool" where
  "is_digit c = (c \<in> set ''0123456789'')"

definition digit_val :: "char \<Rightarrow> nat" where
  "digit_val c = of_char c - 48"

text \<open>\<^verbatim>\<open>str.strip()\<close> removes the characters for which \<^verbatim>\<open>str.isspace\<close> holds.\<close>

definition py_isspace :: "char \<Rightarrow> bool" where
  "py_isspace c = (c \<in> {CHR 0x09, CHR 0x0A, CHR 0x0B, CHR 0x0C, CHR 0x0D,
                         CHR 0x1C, CHR 0x1D, CHR 0x1E, CHR 0x1F, CHR 0x20,
                         CHR 0x85, CHR 0xA0})"

definition strip :: "string \<Rightarrow> string" where
  "strip s = rev (dropWhile py_isspace (rev (dropWhile py_isspace s)))"

text \<open>\<^verbatim>\<open>val.replace(",", "")\<close>\<close>

definition remove_commas :: "string \<Rightarrow> string" where
  "remove_commas s = filter (\<lambda>c. c \<noteq> CHR '','') s"

text \<open>
  \<^verbatim>\<open>int(s)\<close> and \<^verbatim>\<open>float(s)\<close> skip surrounding white space themselves, but not the
  separators \<^verbatim>\<open>\x1c\<close> to \<^verbatim>\<open>\x1f\<close> that \<^verbatim>\<open>strip\<close> removes.
\<close>

definition num_isspace :: "char \<Rightarrow> bool" where
  "num_isspace c = (c \<in> {CHR 0x09, CHR 0x0A, CHR 0x0B, CHR 0x0C, CHR 0x0D, CHR 0x20,
                          CHR 0x85, CHR 0xA0})"

definition num_strip :: "string \<Rightarrow> string" where
  "num_strip s = rev (dropWhile num_isspace (rev (dropWhile num_isspace s)))"

text \<open>A digit part: digits, with single underscores allowed between two digits.\<close>

fun digitpart :: "string \<Rightarrow> bool" where
  "digitpart [] = False"
| "digitpart [c] = is_digit c"
| "digitpart (c # d # cs) =
     (is_digit c \<and> (if d = CHR ''_'' then digitpart cs else digitpart (d # cs)))"

definition nat_of_digits :: "string \<Rightarrow> nat" where
  "nat_of_digits s = foldl (\<lambda>a c. 10 * a + digit_val c) 0 (filter is_digit s)"

text \<open>Decimal digits written out, with leading zeros to a fixed width.\<close>

definition digit_char :: "nat \<Rightarrow> char" where
  "digit_char n = ''0123456789'' ! n"

definition two_digits :: "nat \<Rightarrow> string" where
  "two_digits n = [digit_char (n div 10 mod 10), digit_char (n mod 10)]"

definition four_digits :: "nat \<Rightarrow> string" where
  "four_digits n = two_digits (n div 100 mod 100) @ two_digits (n mod 100)"

text \<open>An optional sign: the flag says whether it is a minus.\<close>

fun split_sign :: "string \<Rightarrow> bool \<times> string" where
  "split_sign [] = (False, [])"
| "split_sign (c # cs) =
     (if c = CHR ''-'' then (True, cs) else if c = CHR ''+'' then (False, cs)
      else (False, c # cs))"

text \<open>\<^verbatim>\<open>int(s)\<close> in base ten; \<open>None\<close> is a \<^verbatim>\<open>ValueError\<close>. Integers are unbounded,
  and so is the number of digits read (later interpreters refuse more than 4300).\<close>

definition py_int :: "string \<Rightarrow> int option" where
  "py_int s =
     (case split_sign (num_strip s) of (neg, body) \<Rightarrow>
        if digitpart body
        then Some (if neg then - int (nat_of_digits body) else int (nat_of_digits body))
        else None)"

text \<open>
  \<^verbatim>\<open>float(s)\<close>: an optional sign, then \<^verbatim>\<open>inf\<close>, \<^verbatim>\<open>infinity\<close> or \<^verbatim>\<open>nan\<close> in any
  letter case, or a decimal number with an optional exponent.
\<close>

definition lower_char :: "char \<Rightarrow> char" where
  "lower_char c =
     (case map_of (zip ''ABCDEFGHIJKLMNOPQRSTUVWXYZ'' ''abcdefghijklmnopqrstuvwxyz'') c of
        Some l \<Rightarrow> l
      | None \<Rightarrow> c)"

definition lower :: "string \<Rightarrow> string" where
  "lower s = map lower_char s"

definition is_exp_mark :: "char \<Rightarrow> bool" where
  "is_exp_mark c = (c = CHR ''e'' \<or> c = CHR ''E'')"

text \<open>The mantissa \<open>ip.fp\<close> or \<open>ip\<close>: its digits as one number and the count of
  fraction digits.\<close>

definition float_mantissa :: "string \<Rightarrow> (nat \<times> nat) option" where
  "float_mantissa s =
     (let ip = takeWhile (\<lambda>c. c \<noteq> CHR ''.'') s; r = dropWhile (\<lambda>c. c \<noteq> CHR ''.'') s
      in case r of
           [] \<Rightarrow> if digitpart ip then Some (nat_of_digits ip, 0) else None
         | _ # fp \<Rightarrow>
             if (ip = [] \<or> digitpart ip) \<and> (fp = [] \<or> digitpart fp) \<and> \<not> (ip = [] \<and> fp = [])
             then Some (nat_of_digits (ip @ fp), length (filter is_digit fp))
             else None)"

definition float_exponent :: "string \<Rightarrow> int option" where
  "float_exponent s =
     (case s of
        [] \<Rightarrow> Some 0
      | _ # ex \<Rightarrow>
          (case split_sign ex of (neg, ds) \<Rightarrow>
             if digitpart ds
             then Some (if neg then - int (nat_of_digits ds) else int (nat_of_digits ds))
             else None))"

definition py_float :: "string \<Rightarrow> pyfloat option" where
  "py_float s =
     (case split_sign (num_strip s) of (neg, body) \<Rightarrow>
        if lower body = ''inf'' \<or> lower body = ''infinity'' then Some (Inf neg)
        else if lower body = ''nan'' then Some NaN
        else
          (case float_mantissa (takeWhile (\<lambda>c. \<not> is_exp_mark c) body) of
             None \<Rightarrow> None
           | Some (m, k) \<Rightarrow>
               (case float_exponent (dropWhile (\<lambda>c. \<not> is_exp_mark c) body) of
                  None \<Rightarrow> None
                | Some x \<Rightarrow> Some (Dec neg m (x - int k)))))"

section \<open>Calendar dates\<close>

definition leap_year :: "nat \<Rightarrow> bool" where
  "leap_year y = (y mod 4 = 0 \<and> (y mod 100 \<noteq> 0 \<or> y mod 400 = 0))"

definition days_in_month :: "nat \<Rightarrow> nat \<Rightarrow> nat" where
  "days_in_month y m =
     (if m = 2 then (if leap_year y then 29 else 28)
      else if m = 4 \<or> m = 6 \<or> m = 9 \<or> m = 11 then 30 else 31)"

text \<open>\<^verbatim>\<open>datetime.date(y, m, d)\<close>; \<open>None\<close> is its \<^verbatim>\<open>ValueError\<close>.\<close>

definition mk_date :: "nat \<Rightarrow> nat \<Rightarrow> nat \<Rightarrow> pyval option" where
  "mk_date y m d =
     (if 1 \<le> y \<and> y \<le> 9999 \<and> 1 \<le> m \<and> m \<le> 12 \<and> 1 \<le> d \<and> d \<le> days_in_month y m
      then Some (PDate y m d) else None)"

text \<open>
  The directives of \<^verbatim>\<open>strptime\<close>, each as the regular expression of the library:
  \<^verbatim>\<open>%m\<close> is \<^verbatim>\<open>1[0-2]|0[1-9]|[1-9]\<close>, \<^verbatim>\<open>%d\<close> is \<^verbatim>\<open>3[0-1]|[1-2]\d|0[1-9]|[1-9]| [1-9]\<close>,
  \<^verbatim>\<open>%y\<close> is \<^verbatim>\<open>\d\d\<close> and \<^verbatim>\<open>%Y\<close> is \<^verbatim>\<open>\d\d\d\d\<close>.
\<close>

definition month_field :: "string \<Rightarrow> nat option" where
  "month_field s =
     (case s of
        [a] \<Rightarrow> if is_digit a \<and> a \<noteq> CHR ''0'' then Some (digit_val a) else None
      | [a, b] \<Rightarrow>
          if (a = CHR ''1'' \<and> b \<in> set ''012'') \<or> (a = CHR ''0'' \<and> is_digit b \<and> b \<noteq> CHR ''0'')
          then Some (10 * digit_val a + digit_val b) else None
      | _ \<Rightarrow> None)"

definition day_field :: "string \<Rightarrow> nat option" where
  "day_field s =
     (case s of
        [a] \<Rightarrow> if is_digit a \<and> a \<noteq> CHR ''0'' then Some (digit_val a) else None
      | [a, b] \<Rightarrow>
          if (a = CHR ''3'' \<and> b \<in> set ''01'') \<or> (a \<in> set ''12'' \<and> is_digit b)
             \<or> (a = CHR ''0'' \<and> is_digit b \<and> b \<noteq> CHR ''0'')
          then Some (10 * digit_val a + digit_val b)
          else if a = CHR '' '' \<and> is_digit b \<and> b \<noteq> CHR ''0'' then Some (digit_val b)
          else None
      | _ \<Rightarrow> None)"

definition year2_field :: "string \<Rightarrow> nat option" where
  "year2_field s =
     (case s of
        [a, b] \<Rightarrow> if is_digit a \<and> is_digit b then Some (10 * digit_val a + digit_val b) else None
      | _ \<Rightarrow> None)"

definition year4_field :: "string \<Rightarrow> nat option" where
  "year4_field s =
     (case s of
        [a, b, c, d] \<Rightarrow>
          if is_digit a \<and> is_digit b \<and> is_digit c \<and> is_digit d
          then Some (1000 * digit_val a + 100 * digit_val b + 10 * digit_val c + digit_val d)
          else None
      | _ \<Rightarrow> None)"

text \<open>The century of a two-digit year, as \<^verbatim>\<open>_strptime\<close> resolves it.\<close>

definition century :: "nat \<Rightarrow> nat" where
  "century yy = (if yy \<le> 68 then yy + 2000 else yy + 1900)"

fun split_on :: "char \<Rightarrow> string \<Rightarrow> string list" where
  "split_on sep [] = [[]]"
| "split_on sep (c # cs) =
     (if c = sep then [] # split_on sep cs
      else (case split_on sep cs of [] \<Rightarrow> [[c]] | p # ps \<Rightarrow> (c # p) # ps))"

text \<open>
  The three formats the script tries. None of the directives matches a slash, so a
  string matches a format in full exactly when its three slash-separated parts match
  the three directives in full.
\<close>

datatype date_format = Fmt_mdy | Fmt_mdY | Fmt_Ymd

fun strptime_date :: "string \<Rightarrow> date_format \<Rightarrow> pyval option" where
  "strptime_date s Fmt_mdy =
     (case split_on CHR ''/'' s of
        [a, b, c] \<Rightarrow>
          (case (month_field a, day_field b, year2_field c) of
             (Some m, Some d, Some yy) \<Rightarrow> mk_date (century yy) m d
           | _ \<Rightarrow> None)
      | _ \<Rightarrow> None)"
| "strptime_date s Fmt_mdY =
     (case split_on CHR ''/'' s of
        [a, b, c] \<Rightarrow>
          (case (month_field a, day_field b, year4_field c) of
             (Some m, Some d, Some y) \<Rightarrow> mk_date y m d
           | _ \<Rightarrow> None)
      | _ \<Rightarrow> None)"
| "strptime_date s Fmt_Ymd =
     (case split_on CHR ''/'' s of
        [a, b, c] \<Rightarrow>
          (case (year4_field a, month_field b, day_field c) of
             (Some y, Some m, Some d) \<Rightarrow> mk_date y m d
           | _ \<Rightarrow> None)
      | _ \<Rightarrow> None)"

section \<open>The value coercer\<close>

text \<open>The part of \<^verbatim>\<open>format\<close> that runs on a string (lines 141 to 171).\<close>

definition format_str :: "string \<Rightarrow> pyval" where
  "format_str raw =
     (let val = strip raw in
      case py_int (remove_commas val) of
        Some n \<Rightarrow> PInt n
      | None \<Rightarrow>
      (case py_float (remove_commas val) of
        Some x \<Rightarrow> PFloat x
      | None \<Rightarrow>
      (case strptime_date val Fmt_mdy of
        Some d \<Rightarrow> d
      | None \<Rightarrow>
      (case strptime_date val Fmt_mdY of
        Some d \<Rightarrow> d
      | None \<Rightarrow>
      (case strptime_date val Fmt_Ymd of
        Some d \<Rightarrow> d
      | None \<Rightarrow>
      if val = [] \<or> val = ''N/A'' then PNone else PStr val)))))"

text \<open>
  \<^verbatim>\<open>format\<close> (lines 131 to 171). \<^verbatim>\<open>pd.isna\<close> holds of \<^verbatim>\<open>None\<close> and of the float
  \<^verbatim>\<open>nan\<close>; an \<^verbatim>\<open>int\<close> or a \<^verbatim>\<open>float\<close> is returned as it is; a date has no
  \<^verbatim>\<open>strip\<close> method, so line 141 raises \<^verbatim>\<open>AttributeError\<close> on it.
\<close>

fun format :: "pyval \<Rightarrow> py_error + pyval" where
  "format PNone = Inr PNone"
| "format (PFloat x) = (if x = NaN then Inr PNone else Inr (PFloat x))"
| "format (PInt n) = Inr (PInt n)"
| "format (PDate y m d) = Inl AttributeError"
| "format (PStr s) = Inr (format_str s)"

section \<open>The fixed-width parser\<close>

text \<open>
  \<^verbatim>\<open>line[a:b]\<close> with \<open>0 \<le> a \<le> b\<close> never fails: what lies beyond the end of the
  line is left out. \<^verbatim>\<open>line[i]\<close> is a string of one character, and raises
  \<^verbatim>\<open>IndexError\<close> when the line has no character \<open>i\<close>.
\<close>

definition slice :: "string \<Rightarrow> nat \<Rightarrow> nat \<Rightarrow> string" where
  "slice s a b = take (b - a) (drop a s)"

definition index_at :: "string \<Rightarrow> nat \<Rightarrow> py_error + string" where
  "index_at s i = (if i < length s then Inr [s ! i] else Inl IndexError)"

text \<open>Lines 211 to 214 and 217 to 220: \<^verbatim>\<open>if not flag: flag = 0 else: flag = 1\<close>.\<close>

definition flag_of :: "string \<Rightarrow> pyval" where
  "flag_of flag = (if flag = [] then PInt 0 else PInt 1)"

text \<open>\<^verbatim>\<open>parse_celestrak_row\<close> (lines 206 to 253); the tuple is a list of 16 values.\<close>

definition parse_celestrak_row :: "string \<Rightarrow> py_error + pyval list" where
  "parse_celestrak_row line =
     (let intl_desg = slice line 0 11;
          norad_number = slice line 13 18
      in case index_at line 19 of
           Inl e \<Rightarrow> Inl e
         | Inr multiple_name_flag \<Rightarrow>
        (case index_at line 20 of
           Inl e \<Rightarrow> Inl e
         | Inr payload_flag \<Rightarrow>
        (case index_at line 21 of
           Inl e \<Rightarrow> Inl e
         | Inr ops_status_code \<Rightarrow>
             Inr [PStr intl_desg, PStr norad_number, flag_of multiple_name_flag,
                  flag_of payload_flag, PStr ops_status_code, PStr (slice line 23 47),
                  PStr (slice line 49 54), PStr (slice line 56 66), PStr (slice line 69 73),
                  PStr (slice line 75 85), PStr (slice line 87 94), PStr (slice line 96 101),
                  PStr (slice line 103 109), PStr (slice line 111 117),
                  PStr (slice line 119 127), PStr (slice line 129 132)])))"

section \<open>Floats: the nearest double and its shortest decimal\<close>

text \<open>
  A positive fraction \<open>(n, d)\<close> stands for \<open>n / d\<close>. The double nearest to it is
  \<open>M * 2 ^ u\<close> with \<open>M \<le> 2 ^ 53\<close>, rounded to even on a tie; \<open>None\<close> is infinity.
\<close>

definition dec_fraction :: "nat \<Rightarrow> int \<Rightarrow> nat \<times> nat" where
  "dec_fraction m e = (if 0 \<le> e then (m * 10 ^ nat e, 1) else (m, 10 ^ nat (- e)))"

definition scale_down :: "nat \<Rightarrow> nat \<times> nat \<Rightarrow> int \<Rightarrow> nat \<times> nat" where
  "scale_down b f k =
     (case f of (n, d) \<Rightarrow> if 0 \<le> k then (n, d * b ^ nat k) else (n * b ^ nat (- k), d))"

text \<open>The number of digits of \<open>n\<close> in base \<open>b\<close>, and the floor of the logarithm of a
  fraction: the difference of the digit counts, or one less.\<close>

fun digit_count :: "nat \<Rightarrow> nat \<Rightarrow> nat" where
  "digit_count b n = (if n = 0 \<or> b < 2 then 0 else Suc (digit_count b (n div b)))"

definition floor_log :: "nat \<Rightarrow> nat \<times> nat \<Rightarrow> int" where
  "floor_log b f =
     (case f of (n, d) \<Rightarrow>
        let k = int (digit_count b n) - int (digit_count b d)
        in case scale_down b f k of (x, y) \<Rightarrow> if y \<le> x then k else k - 1)"

definition round_half_even :: "nat \<times> nat \<Rightarrow> nat" where
  "round_half_even f =
     (case f of (a, b) \<Rightarrow>
        let q = a div b; r = a mod b
        in if 2 * r < b then q else if b < 2 * r then q + 1 else if even q then q else q + 1)"

definition nearest_double :: "nat \<times> nat \<Rightarrow> (nat \<times> int) option" where
  "nearest_double f =
     (let u = max (floor_log 2 f) (- 1022) - 52;
          M = round_half_even (scale_down 2 f u)
      in if 971 < u \<or> (u = 971 \<and> M = 2 ^ 53) then None
         else if M = 2 ^ 53 then Some (2 ^ 52, u + 1) else Some (M, u))"

text \<open>\<^verbatim>\<open>int(x)\<close> for a float with \<^verbatim>\<open>x.is_integer()\<close>, otherwise \<open>None\<close>.\<close>

fun float_integral :: "pyfloat \<Rightarrow> int option" where
  "float_integral (Dec neg m e) =
     (if m = 0 then Some 0
      else case nearest_double (dec_fraction m e) of
             None \<Rightarrow> None
           | Some (M, u) \<Rightarrow>
               if 0 \<le> u then Some ((if neg then - 1 else 1) * int (M * 2 ^ nat u))
               else if M mod 2 ^ nat (- u) = 0
               then Some ((if neg then - 1 else 1) * int (M div 2 ^ nat (- u)))
               else None)"
| "float_integral (Inf neg) = None"
| "float_integral NaN = None"

text \<open>
  \<^verbatim>\<open>repr\<close> of a float prints the shortest decimal that reads back as the same double,
  the nearest one when several do. \<open>shortest_digits v p k n\<close> tries \<open>k\<close>, \<open>k + 1\<close>, ...
  significant digits, \<open>n\<close> times, for the double \<open>v = (M, u)\<close> with decimal exponent
  \<open>p\<close>; it returns the digits as a number and the exponent of its last digit.
\<close>

definition double_fraction :: "nat \<times> int \<Rightarrow> nat \<times> nat" where
  "double_fraction v =
     (case v of (M, u) \<Rightarrow> if 0 \<le> u then (M * 2 ^ nat u, 1) else (M, 2 ^ nat (- u)))"

fun shortest_digits :: "nat \<times> int \<Rightarrow> int \<Rightarrow> int \<Rightarrow> nat \<Rightarrow> nat \<times> int" where
  "shortest_digits v p k 0 =
     (case scale_down 10 (double_fraction v) (p - k + 1) of (a, b) \<Rightarrow> (a div b, p - k + 1))"
| "shortest_digits v p k (Suc n) =
     (let s = p - k + 1 in
      case scale_down 10 (double_fraction v) s of (a, b) \<Rightarrow>
        let lo = a div b; hi = lo + 1;
            lo_ok = (nearest_double (dec_fraction lo s) = Some v);
            hi_ok = (nearest_double (dec_fraction hi s) = Some v);
            lo_near = (2 * (a mod b) < b \<or> (2 * (a mod b) = b \<and> even lo))
        in if lo_ok \<and> (lo_near \<or> \<not> hi_ok) then (lo, s)
           else if hi_ok then (hi, s)
           else shortest_digits v p (k + 1) n)"

fun digits_of_nat :: "nat \<Rightarrow> string" where
  "digits_of_nat n =
     (if n < 10 then [digit_char n] else digits_of_nat (n div 10) @ [digit_char (n mod 10)])"

fun strip_zeros :: "string \<Rightarrow> string" where
  "strip_zeros s = rev (dropWhile (\<lambda>c. c = CHR ''0'') (rev s))"

text \<open>The layout of \<^verbatim>\<open>repr\<close>: digits \<open>ds\<close> with the decimal point after \<open>decpt\<close> of them.\<close>

definition float_layout :: "string \<Rightarrow> int \<Rightarrow> string" where
  "float_layout ds decpt =
     (if decpt \<le> - 4 \<or> 16 < decpt then
        (let x = decpt - 1;
             xs = digits_of_nat (nat \<bar>x\<bar>)
         in take 1 ds @ (if 1 < length ds then ''.'' @ drop 1 ds else [])
            @ ''e'' @ (if x < 0 then ''-'' else ''+'')
            @ (if length xs < 2 then ''0'' @ xs else xs))
      else if decpt \<le> 0 then ''0.'' @ replicate (nat (- decpt)) CHR ''0'' @ ds
      else if int (length ds) \<le> decpt
      then ds @ replicate (nat (decpt - int (length ds))) CHR ''0'' @ ''.0''
      else take (nat decpt) ds @ ''.'' @ drop (nat decpt) ds)"

fun float_repr :: "pyfloat \<Rightarrow> string" where
  "float_repr NaN = ''nan''"
| "float_repr (Inf neg) = (if neg then ''-inf'' else ''inf'')"
| "float_repr (Dec neg m e) =
     (if neg then ''-'' else []) @
     (if m = 0 then ''0.0''
      else case nearest_double (dec_fraction m e) of
             None \<Rightarrow> ''inf''
           | Some v \<Rightarrow>
               if fst v = 0 then ''0.0''
               else (case shortest_digits v (floor_log 10 (double_fraction v)) 1 17 of
                       (D, s) \<Rightarrow>
                         let ds = strip_zeros (digits_of_nat D)
                         in float_layout ds (int (length (digits_of_nat D)) + s)))"

section \<open>String forms and the fingerprint\<close>

text \<open>\<^verbatim>\<open>str(e)\<close> for a cell.\<close>

fun py_str :: "pyval \<Rightarrow> string" where
  "py_str PNone = ''None''"
| "py_str (PInt n) = (if n < 0 then ''-'' @ digits_of_nat (nat (- n)) else digits_of_nat (nat n))"
| "py_str (PFloat x) = float_repr x"
| "py_str (PDate y m d) = four_digits y @ ''-'' @ two_digits m @ ''-'' @ two_digits d"
| "py_str (PStr s) = s"

text \<open>\<^verbatim>\<open>line.encode("utf-8")\<close> for code points below 256.\<close>

definition utf8_char :: "char \<Rightarrow> 8 word list" where
  "utf8_char c =
     (if (of_char c :: nat) < 128 then [of_char c]
      else [0xC0 OR drop_bit 6 (of_char c), 0x80 OR (of_char c AND 0x3F)])"

definition encode_utf8 :: "string \<Rightarrow> 8 word list" where
  "encode_utf8 s = concat (map utf8_char s)"

text \<open>\<^verbatim>\<open>hashlib.md5\<close>, after RFC 1321.\<close>

definition md5_K :: "32 word list" where
  "md5_K =
   [0xd76aa478, 0xe8c7b756, 0x242070db, 0xc1bdceee,
    0xf57c0faf, 0x4787c62a, 0xa8304613, 0xfd469501,
    0x698098d8, 0x8b44f7af, 0xffff5bb1, 0x895cd7be,
    0x6b901122, 0xfd987193, 0xa679438e, 0x49b40821,
    0xf61e2562, 0xc040b340, 0x265e5a51, 0xe9b6c7aa,
    0xd62f105d, 0x02441453, 0xd8a1e681, 0xe7d3fbc8,
    0x21e1cde6, 0xc33707d6, 0xf4d50d87, 0x455a14ed,
    0xa9e3e905, 0xfcefa3f8, 0x676f02d9, 0x8d2a4c8a,
    0xfffa3942, 0x8771f681, 0x6d9d6122, 0xfde5380c,
    0xa4beea44, 0x4bdecfa9, 0xf6bb4b60, 0xbebfbc70,
    0x289b7ec6, 0xeaa127fa, 0xd4ef3085, 0x04881d05,
    0xd9d4d039, 0xe6db99e5, 0x1fa27cf8, 0xc4ac5665,
    0xf4292244, 0x432aff97, 0xab9423a7, 0xfc93a039,
    0x655b59c3, 0x8f0ccc92, 0xffeff47d, 0x85845dd1,
    0x6fa87e4f, 0xfe2ce6e0, 0xa3014314, 0x4e0811a1,
    0xf7537e82, 0xbd3af235, 0x2ad7d2bb, 0xeb86d391]"

definition md5_s :: "nat list" where
  "md5_s =
   [7, 12, 17, 22, 7, 12, 17, 22, 7, 12, 17, 22, 7, 12, 17, 22,
    5, 9, 14, 20, 5, 9, 14, 20, 5, 9, 14, 20, 5, 9, 14, 20,
    4, 11, 16, 23, 4, 11, 16, 23, 4, 11, 16, 23, 4, 11, 16, 23,
    6, 10, 15, 21, 6, 10, 15, 21, 6, 10, 15, 21, 6, 10, 15, 21]"

type_synonym md5_state = "32 word \<times> 32 word \<times> 32 word \<times> 32 word"

definition md5_pad :: "8 word list \<Rightarrow> 8 word list" where
  "md5_pad bs =
     bs @ [0x80] @ replicate ((119 - length bs mod 64) mod 64) 0
        @ map (\<lambda>i. ucast (drop_bit (8 * i) (word_of_nat (length bs * 8) :: 64 word))) [0..<8]"

definition le_word :: "8 word list \<Rightarrow> 32 word" where
  "le_word bs = foldr (\<lambda>b w. ucast b OR push_bit 8 w) bs 0"

definition md5_step :: "32 word list \<Rightarrow> md5_state \<Rightarrow> nat \<Rightarrow> md5_state" where
  "md5_step M st i =
     (case st of (a, b, c, d) \<Rightarrow>
        let f = (if i < 16 then (b AND c) OR (NOT b AND d)
                 else if i < 32 then (d AND b) OR (NOT d AND c)
                 else if i < 48 then b XOR c XOR d
                 else c XOR (b OR NOT d));
            g = (if i < 16 then i
                 else if i < 32 then (5 * i + 1) mod 16
                 else if i < 48 then (3 * i + 5) mod 16
                 else (7 * i) mod 16)
        in (d, b + word_rotl (md5_s ! i) (a + f + md5_K ! i + M ! g), b, c))"

definition md5_block :: "md5_state \<Rightarrow> 8 word list \<Rightarrow> md5_state" where
  "md5_block st chunk =
     (let M = map (\<lambda>j. le_word (take 4 (drop (4 * j) chunk))) [0..<16]
      in case (st, foldl (md5_step M) st [0..<64]) of
           ((a0, b0, c0, d0), (a, b, c, d)) \<Rightarrow> (a0 + a, b0 + b, c0 + c, d0 + d))"

definition md5 :: "8 word list \<Rightarrow> md5_state" where
  "md5 bs =
     (let padded = md5_pad bs
      in foldl md5_block (0x67452301, 0xefcdab89, 0x98badcfe, 0x10325476)
           (map (\<lambda>i. take 64 (drop (64 * i) padded)) [0..<length padded div 64]))"

definition hex_byte :: "8 word \<Rightarrow> string" where
  "hex_byte b = [''0123456789abcdef'' ! (unat b div 16), ''0123456789abcdef'' ! (unat b mod 16)]"

definition hex_word :: "32 word \<Rightarrow> string" where
  "hex_word w = concat (map (\<lambda>i. hex_byte (ucast (drop_bit (8 * i) w))) [0..<4])"

definition hexdigest :: "md5_state \<Rightarrow> string" where
  "hexdigest st = (case st of (a, b, c, d) \<Rightarrow> hex_word a @ hex_word b @ hex_word c @ hex_word d)"

text \<open>\<^verbatim>\<open>fingerprint_line\<close> (lines 14 to 16).\<close>

definition fingerprint_line :: "string \<Rightarrow> string" where
  "fingerprint_line line = hexdigest (md5 (encode_utf8 line))"

text \<open>
  The fingerprint of a row, as the three table updates compute it (lines 180, 196 and
  261): \<^verbatim>\<open>fingerprint_line("".join(str(e) for e in row))\<close>.
\<close>

definition record_fingerprint :: "pyval list \<Rightarrow> string" where
  "record_fingerprint row = fingerprint_line (concat (map py_str row))"

section \<open>Frames\<close>

text \<open>
  A row of a frame is the function from column label to cell; both frames get a fixed
  list of columns when they are loaded (lines 25 to 61 and 78 to 95), so reading a
  column of a row cannot fail. A frame is the list of its rows. Neither loader gives
  its frame an index, so both carry the default one: the label of a row is its position
  \<open>0, 1, 2, ...\<close>. Column types of pandas are not modelled: a cell holds the value that
  was stored.
\<close>

type_synonym row = "string \<Rightarrow> pyval"

type_synonym dataframe = "row list"

definition satdb_columns :: "string list" where
  "satdb_columns =
   [''name'', ''country_registered'', ''country_owner'', ''owner_operator'', ''users'',
    ''purpose'', ''purpose_detailed'', ''orbit_class'', ''orbit_type'', ''GEO_longitude'',
    ''perigee_km'', ''apogee_km'', ''eccentricity'', ''inclination_degrees'',
    ''period_minutes'', ''launch_mass_kg'', ''dry_mass_kg'', ''power_watts'', ''launch_date'',
    ''expected_lifetime_years'', ''contractor'', ''contractor_country'', ''launch_site'',
    ''launch_vehicle'', ''international_designator'', ''norad_number'', ''comments'',
    ''detailed_comments'', ''source_1'', ''source_2'', ''source_3'', ''source_4'', ''source_5'',
    ''source_6'', ''source_7'']"

definition satcat_columns :: "string list" where
  "satcat_columns =
   [''intl_desg'', ''norad_num'', ''multiple_name_flag'', ''payload_flag'', ''ops_status_code'',
    ''name'', ''source'', ''launch_date'', ''launch_site'', ''decay_date'',
    ''orbit_period_minutes'', ''inclination_deg'', ''apogee'', ''perigee'', ''radar_crosssec'',
    ''orbit_status_code'']"

text \<open>A row of \<^verbatim>\<open>pd.DataFrame(data, columns=...)\<close>, and a row of \<^verbatim>\<open>df.itertuples\<close>.\<close>

definition make_row :: "string list \<Rightarrow> pyval list \<Rightarrow> row" where
  "make_row cols vals = (\<lambda>c. case map_of (zip cols vals) c of Some v \<Rightarrow> v | None \<Rightarrow> PNone)"

definition itertuple :: "string list \<Rightarrow> row \<Rightarrow> pyval list" where
  "itertuple cols r = map r cols"

text \<open>A list comprehension whose body may raise: the first error ends it.\<close>

fun collect :: "('e + 'a) list \<Rightarrow> 'e + 'a list" where
  "collect [] = Inr []"
| "collect (x # xs) =
     (case x of
        Inl e \<Rightarrow> Inl e
      | Inr v \<Rightarrow> (case collect xs of Inl e \<Rightarrow> Inl e | Inr vs \<Rightarrow> Inr (v # vs)))"

text \<open>
  \<^verbatim>\<open>load_celestrak_satcat_data\<close> (lines 65 to 98), from the lines that \<^verbatim>\<open>read_csv\<close>
  delivers. Line 97, \<^verbatim>\<open>df.set_index("norad_num")\<close>, builds a second frame indexed by
  catalog number and drops it: \<^verbatim>\<open>set_index\<close> does not change \<^verbatim>\<open>df\<close>, and its result
  is not assigned. The frame returned is the one built on line 76, with the default index.
\<close>

definition load_celestrak_satcat_data :: "string list \<Rightarrow> py_error + dataframe" where
  "load_celestrak_satcat_data lines =
     collect (map (\<lambda>line.
        case parse_celestrak_row line of
          Inl e \<Rightarrow> Inl e
        | Inr t \<Rightarrow>
            (case collect (map format t) of
               Inl e \<Rightarrow> Inl e
             | Inr vals \<Rightarrow> Inr (make_row satcat_columns vals))) lines)"

text \<open>
  \<^verbatim>\<open>satcat.loc[key]\<close> on the default index: the row whose position is the key, for an
  \<^verbatim>\<open>int\<close> or a float with an integer value; every other key is no label of the index
  and raises \<^verbatim>\<open>KeyError\<close>, as pandas has done since version 1.0.
\<close>

definition loc :: "dataframe \<Rightarrow> pyval \<Rightarrow> py_error + row" where
  "loc df key =
     (case (case key of PInt n \<Rightarrow> Some n | PFloat x \<Rightarrow> float_integral x | _ \<Rightarrow> None) of
        None \<Rightarrow> Inl KeyError
      | Some n \<Rightarrow> if 0 \<le> n \<and> n < int (length df) then Inr (df ! nat n) else Inl KeyError)"

section \<open>The reconciler\<close>

text \<open>Lines 108 to 115: the eight assignments \<^verbatim>\<open>satdb.loc[i, ...] = satcat_row.loc[...]\<close>.\<close>

definition override :: "row \<Rightarrow> row \<Rightarrow> row" where
  "override satdb_row satcat_row =
     satdb_row(''name'' := satcat_row ''name'',
               ''perigee_km'' := satcat_row ''perigee'',
               ''apogee_km'' := satcat_row ''apogee'',
               ''inclination_degrees'' := satcat_row ''inclination_deg'',
               ''period_minutes'' := satcat_row ''orbit_period_minutes'',
               ''launch_date'' := satcat_row ''launch_date'',
               ''launch_site'' := satcat_row ''launch_site'',
               ''international_designator'' := satcat_row ''intl_desg'')"

text \<open>
  The body of the loop (lines 105 to 126) for one row. \<open>draw\<close> is what
  \<^verbatim>\<open>random.randint(1, 101)\<close> returns if line 119 is reached. The result is the row as the
  body leaves it, and the key named in the warning of line 123 if there is one.
  \<^verbatim>\<open>format\<close> is called outside the \<^verbatim>\<open>try\<close>, so its error ends the run.
\<close>

definition fix_row :: "dataframe \<Rightarrow> int \<Rightarrow> row \<Rightarrow> py_error + row \<times> pyval option" where
  "fix_row satcat draw satdb_row =
     (case format (satdb_row ''norad_number'') of
        Inl e \<Rightarrow> Inl e
      | Inr norad_number \<Rightarrow>
          (case loc satcat norad_number of
             Inr satcat_row \<Rightarrow>
               Inr (if draw < 3
                    then (override satdb_row satcat_row)(''name'' := PStr ''BLAH BLAH BLAH'')
                    else override satdb_row satcat_row, None)
           | Inl e \<Rightarrow>
               if e = KeyError \<or> e = ValueError then Inr (satdb_row, Some norad_number)
               else Inl e))"

text \<open>
  The loop over the rows of \<^verbatim>\<open>satdb\<close>. \<open>rnd k\<close> is draw number \<open>k\<close> of the random
  generator, and \<open>k\<close> counts the draws made so far; a row draws only when its lookup
  succeeds. The result is the frame and the keys of the warnings, in order.
\<close>

fun fix_loop :: "dataframe \<Rightarrow> (nat \<Rightarrow> int) \<Rightarrow> nat \<Rightarrow> row list \<Rightarrow> py_error + row list \<times> pyval list" where
  "fix_loop satcat rnd k [] = Inr ([], [])"
| "fix_loop satcat rnd k (satdb_row # rest) =
     (case fix_row satcat (rnd k) satdb_row of
        Inl e \<Rightarrow> Inl e
      | Inr (fixed, warning) \<Rightarrow>
          (case fix_loop satcat rnd (case warning of None \<Rightarrow> k + 1 | Some w \<Rightarrow> k) rest of
             Inl e \<Rightarrow> Inl e
           | Inr (rows, warnings) \<Rightarrow>
               Inr (fixed # rows,
                    (case warning of None \<Rightarrow> warnings | Some w \<Rightarrow> w # warnings))))"

text \<open>\<^verbatim>\<open>fix_discrepencies\<close> (lines 101 to 128).\<close>

definition fix_discrepencies :: "(nat \<Rightarrow> int) \<Rightarrow> dataframe \<Rightarrow> dataframe \<Rightarrow> py_error + dataframe \<times> pyval list" where
  "fix_discrepencies rnd satdb satcat = fix_loop satcat rnd 0 satdb"

text \<open>Whether the lookup for a row succeeds, and the number of the draw a row makes.\<close>

definition is_matched :: "dataframe \<Rightarrow> row \<Rightarrow> bool" where
  "is_matched satcat satdb_row =
     (case format (satdb_row ''norad_number'') of
        Inl e \<Rightarrow> False
      | Inr norad_number \<Rightarrow> (case loc satcat norad_number of Inl e \<Rightarrow> False | Inr r \<Rightarrow> True))"

text \<open>The key that the warning for a row names, if the row gets one.\<close>

definition warning_of :: "dataframe \<Rightarrow> row \<Rightarrow> pyval option" where
  "warning_of satcat satdb_row =
     (case format (satdb_row ''norad_number'') of
        Inl e \<Rightarrow> None
      | Inr norad_number \<Rightarrow>
          (case loc satcat norad_number of Inl e \<Rightarrow> Some norad_number | Inr r \<Rightarrow> None))"

definition draw_index :: "dataframe \<Rightarrow> dataframe \<Rightarrow> nat \<Rightarrow> nat" where
  "draw_index satcat satdb i = length (filter (is_matched satcat) (take i satdb))"

text \<open>
  The lookup as the specification words it: the first row of the tracking catalog whose
  catalog number, in string form, equals the string form of the key.
\<close>

definition spec_lookup :: "dataframe \<Rightarrow> pyval \<Rightarrow> row option" where
  "spec_lookup satcat key = find (\<lambda>r. py_str (r ''norad_num'') = py_str key) satcat"

section \<open>The table updates\<close>

text \<open>
  One row of the batch that \<^verbatim>\<open>update_ucs_satdb_table\<close>, \<^verbatim>\<open>update_ucs_satdb_fixed_table\<close>
  and \<^verbatim>\<open>update_celestrak_satcat_table\<close> hand to the database: the formatted cells and
  the fingerprint of the unformatted ones.
\<close>

definition savable :: "pyval list \<Rightarrow> py_error + pyval list" where
  "savable row =
     (let record_fingerprint = record_fingerprint row
      in case collect (map format row) of
           Inl e \<Rightarrow> Inl e
         | Inr vals \<Rightarrow> Inr (vals @ [PStr record_fingerprint]))"

definition update_ucs_satdb_table :: "dataframe \<Rightarrow> py_error + pyval list list" where
  "update_ucs_satdb_table df = collect (map (\<lambda>r. savable (itertuple satdb_columns r)) df)"

definition update_ucs_satdb_fixed_table :: "dataframe \<Rightarrow> py_error + pyval list list" where
  "update_ucs_satdb_fixed_table df = collect (map (\<lambda>r. savable (itertuple satdb_columns r)) df)"

definition update_celestrak_satcat_table :: "dataframe \<Rightarrow> py_error + pyval list list" where
  "update_celestrak_satcat_table df = collect (map (\<lambda>r. savable (itertuple satcat_columns r)) df)"

section \<open>Sample rows\<close>

text \<open>Rows of the two catalogues, used to run the definitions on.\<close>

definition catalog_iss :: row where
  "catalog_iss =
     make_row satcat_columns
       [PStr ''1998-067A'', PInt 25544, PInt 1, PInt 1, PStr ''+'', PStr ''ISS (ZARYA)'',
        PStr ''ISS'', PStr ''1998-11-20'', PStr ''TYMSC'', PNone, PFloat (Dec False 929 (- 1)),
        PFloat (Dec False 516 (- 1)), PInt 421, PInt 415, PFloat (Dec False 3995 (- 1)), PNone]"

definition catalog_hst :: row where
  "catalog_hst =
     make_row satcat_columns
       [PStr ''1990-037B'', PInt 20580, PInt 1, PInt 1, PStr ''+'', PStr ''HST'',
        PStr ''US'', PStr ''1990-04-24'', PStr ''AFETR'', PNone, PFloat (Dec False 951 (- 1)),
        PFloat (Dec False 285 (- 1)), PInt 538, PInt 533, PFloat (Dec False 28 0), PNone]"

definition catalog_zero :: row where
  "catalog_zero = catalog_iss(''norad_num'' := PInt 0)"

definition registry_row :: "pyval \<Rightarrow> row" where
  "registry_row norad =
     (\<lambda>c. PNone)(''name'' := PStr ''Old Name'', ''perigee_km'' := PInt 400,
                  ''launch_date'' := PStr ''11/20/1998'', ''users'' := PStr ''Government'',
                  ''norad_number'' := norad)"

section \<open>Facts about the library functions\<close>

subsection \<open>Strings with a slash are no numbers\<close>

lemma in_set_dropWhile: "x \<in> set s \<Longrightarrow> \<not> P x \<Longrightarrow> x \<in> set (dropWhile P s)"
  by (induction s) auto

lemma dropWhile_none: "\<forall>c\<in>set s. \<not> P c \<Longrightarrow> dropWhile P s = s"
  by (cases s) simp_all

lemma slash_not_space: "\<not> num_isspace CHR ''/''" "\<not> py_isspace CHR ''/''"
  by (simp_all add: num_isspace_def py_isspace_def)

lemma slash_in_num_strip: "CHR ''/'' \<in> set s \<Longrightarrow> CHR ''/'' \<in> set (num_strip s)"
  unfolding num_strip_def by (simp add: in_set_dropWhile slash_not_space)

lemma slash_in_strip: "CHR ''/'' \<in> set s \<Longrightarrow> CHR ''/'' \<in> set (strip s)"
  unfolding strip_def by (simp add: in_set_dropWhile slash_not_space)

lemma digitpart_chars: "digitpart s \<Longrightarrow> c \<in> set s \<Longrightarrow> is_digit c \<or> c = CHR ''_''"
  by (induction s rule: digitpart.induct) (auto split: if_splits)

lemma slash_not_digit: "\<not> is_digit CHR ''/''"
  by (simp add: is_digit_def)

lemma digitpart_no_slash: "CHR ''/'' \<in> set s \<Longrightarrow> \<not> digitpart s"
  using digitpart_chars slash_not_digit by fastforce

lemma slash_in_split_sign: "CHR ''/'' \<in> set s \<Longrightarrow> CHR ''/'' \<in> set (snd (split_sign s))"
  by (cases s) auto

lemma py_int_slash:
  assumes "CHR ''/'' \<in> set s"
  shows "py_int s = None"
proof -
  obtain neg body where sb: "split_sign (num_strip s) = (neg, body)" by force
  have "CHR ''/'' \<in> set body"
    using slash_in_split_sign [OF slash_in_num_strip [OF assms]] sb by simp
  then have "\<not> digitpart body" by (rule digitpart_no_slash)
  then show ?thesis using sb by (simp add: py_int_def)
qed

lemma lower_slash: "CHR ''/'' \<in> set s \<Longrightarrow> CHR ''/'' \<in> set (lower s)"
proof -
  assume a: "CHR ''/'' \<in> set s"
  have "lower_char CHR ''/'' = CHR ''/''" by (simp add: lower_char_def)
  with a show ?thesis unfolding lower_def by (metis image_eqI set_map)
qed

lemma float_mantissa_slash:
  assumes "CHR ''/'' \<in> set s"
  shows "float_mantissa s = None"
proof -
  let ?p = "\<lambda>c. c \<noteq> CHR ''.''"
  have "s = takeWhile ?p s @ dropWhile ?p s" by simp
  then have "CHR ''/'' \<in> set (takeWhile ?p s) \<or> CHR ''/'' \<in> set (dropWhile ?p s)"
    using assms by (metis Un_iff set_append)
  then show ?thesis
  proof
    assume "CHR ''/'' \<in> set (takeWhile ?p s)"
    then have "\<not> digitpart (takeWhile ?p s)" "takeWhile ?p s \<noteq> []"
      by (auto simp: digitpart_no_slash)
    then show ?thesis by (auto simp: float_mantissa_def Let_def split: list.splits)
  next
    assume b: "CHR ''/'' \<in> set (dropWhile ?p s)"
    then obtain c fp where r: "dropWhile ?p s = c # fp" by (cases "dropWhile ?p s") auto
    then have "c = CHR ''.''" using hd_dropWhile [of ?p s] by (metis list.sel(1) list.distinct(1))
    with b r have "CHR ''/'' \<in> set fp" by auto
    then have "\<not> digitpart fp" "fp \<noteq> []" by (auto simp: digitpart_no_slash)
    with r show ?thesis by (auto simp: float_mantissa_def Let_def)
  qed
qed

lemma float_exponent_slash:
  assumes "CHR ''/'' \<in> set s" and "hd s \<noteq> CHR ''/''"
  shows "float_exponent s = None"
proof (cases s)
  case Nil
  with assms show ?thesis by simp
next
  case (Cons c ex)
  with assms have e: "CHR ''/'' \<in> set ex" by auto
  obtain neg ds where sb: "split_sign ex = (neg, ds)" by force
  have "CHR ''/'' \<in> set ds" using slash_in_split_sign [OF e] sb by simp
  then have "\<not> digitpart ds" by (rule digitpart_no_slash)
  then show ?thesis using Cons sb by (simp add: float_exponent_def)
qed

lemma py_float_slash:
  assumes "CHR ''/'' \<in> set s"
  shows "py_float s = None"
proof -
  obtain neg body where sb: "split_sign (num_strip s) = (neg, body)" by force
  have b: "CHR ''/'' \<in> set body"
    using slash_in_split_sign [OF slash_in_num_strip [OF assms]] sb by simp
  let ?p = "\<lambda>c. \<not> is_exp_mark c"
  have low: "CHR ''/'' \<in> set (lower body)" using b by (rule lower_slash)
  have n1: "lower body \<noteq> ''inf''" "lower body \<noteq> ''infinity''" "lower body \<noteq> ''nan''"
    using low by auto
  have "body = takeWhile ?p body @ dropWhile ?p body" by simp
  then have "CHR ''/'' \<in> set (takeWhile ?p body) \<or> CHR ''/'' \<in> set (dropWhile ?p body)"
    using b by (metis Un_iff set_append)
  then have "float_mantissa (takeWhile ?p body) = None \<or> float_exponent (dropWhile ?p body) = None"
  proof
    assume "CHR ''/'' \<in> set (takeWhile ?p body)"
    then show ?thesis by (simp add: float_mantissa_slash)
  next
    assume c: "CHR ''/'' \<in> set (dropWhile ?p body)"
    then have "dropWhile ?p body \<noteq> []" by (metis empty_iff list.set(1))
    then have "is_exp_mark (hd (dropWhile ?p body))" using hd_dropWhile [of ?p body] by blast
    then have "hd (dropWhile ?p body) \<noteq> CHR ''/''" by (auto simp: is_exp_mark_def)
    with c show ?thesis by (simp add: float_exponent_slash)
  qed
  then show ?thesis
    using n1 sb by (auto simp: py_float_def split: option.splits)
qed

subsection \<open>Digits\<close>

lemma digit_char_cases:
  assumes "d < 10"
  shows "(d::nat) \<in> {0, 1, 2, 3, 4, 5, 6, 7, 8, 9}"
  using assms by auto

lemma digit_char_props:
  assumes "d < 10"
  shows "is_digit (digit_char d)" and "digit_val (digit_char d) = d"
  using digit_char_cases [OF assms]
  by (auto simp: digit_char_def is_digit_def digit_val_def)

lemma is_digit_not_space: "is_digit c \<Longrightarrow> \<not> py_isspace c"
  by (auto simp: is_digit_def py_isspace_def)

lemma is_digit_not_num_space: "is_digit c \<Longrightarrow> \<not> num_isspace c"
  by (auto simp: is_digit_def num_isspace_def)

lemma is_digit_bound: "is_digit c \<Longrightarrow> digit_val c < 10"
  by (auto simp: is_digit_def digit_val_def)

lemma digits_no_slash: "\<forall>c\<in>set s. is_digit c \<Longrightarrow> CHR ''/'' \<notin> set s"
  using slash_not_digit by auto

lemma two_digits_digits: "\<forall>c\<in>set (two_digits n). is_digit c"
  by (simp add: two_digits_def digit_char_props)

lemma four_digits_digits: "\<forall>c\<in>set (four_digits n). is_digit c"
  by (simp add: four_digits_def two_digits_def digit_char_props)

lemma two_digits_props:
  shows "CHR ''/'' \<notin> set (two_digits n)" and "is_digit (hd (two_digits n))"
    and "is_digit (last (two_digits n))" and "length (two_digits n) = 2"
    and "two_digits n \<noteq> []"
  using digits_no_slash [OF two_digits_digits]
  by (simp_all add: two_digits_def digit_char_props)

lemma four_digits_props:
  shows "CHR ''/'' \<notin> set (four_digits n)" and "is_digit (hd (four_digits n))"
    and "is_digit (last (four_digits n))" and "length (four_digits n) = 4"
    and "four_digits n \<noteq> []"
  using digits_no_slash [OF four_digits_digits]
  by (simp_all add: four_digits_def two_digits_def digit_char_props)

lemma two_digit_value:
  assumes "k < 100"
  shows "10 * (k div 10 mod 10) + k mod 10 = (k::nat)"
proof -
  from assms have "k div 10 < 10" by simp
  then show ?thesis by simp
qed

lemma digitpart_digits: "s \<noteq> [] \<Longrightarrow> \<forall>c\<in>set s. is_digit c \<Longrightarrow> digitpart s"
proof (induction s rule: digitpart.induct)
  case (3 c d cs)
  then have "d \<noteq> CHR ''_''" by (auto simp: is_digit_def)
  with 3 show ?case by simp
qed simp_all

subsection \<open>Stripping and splitting\<close>

lemma strip_id:
  assumes "s \<noteq> []" and "\<not> py_isspace (hd s)" and "\<not> py_isspace (last s)"
  shows "strip s = s"
proof -
  from assms have a: "dropWhile py_isspace s = s" by (cases s) auto
  from assms have "hd (rev s) = last s" by (simp add: hd_rev)
  with assms have "dropWhile py_isspace (rev s) = rev s"
    by (cases "rev s") force+
  with a show ?thesis by (simp add: strip_def)
qed

lemma strip_no_space:
  assumes "\<forall>c\<in>set s. \<not> py_isspace c"
  shows "strip s = s"
  using assms by (simp add: strip_def dropWhile_none)

lemma num_strip_no_space:
  assumes "\<forall>c\<in>set s. \<not> num_isspace c"
  shows "num_strip s = s"
  using assms by (simp add: num_strip_def dropWhile_none)

lemma split_on_no_sep: "sep \<notin> set a \<Longrightarrow> split_on sep a = [a]"
  by (induction a) auto

lemma split_on_append: "sep \<notin> set a \<Longrightarrow> split_on sep (a @ sep # r) = a # split_on sep r"
  by (induction a) auto

lemma split_on_three:
  assumes "sep \<notin> set a" and "sep \<notin> set b" and "sep \<notin> set c"
  shows "split_on sep (a @ sep # b @ sep # c) = [a, b, c]"
  using assms by (simp add: split_on_append split_on_no_sep)

subsection \<open>The fields of a date\<close>

lemma year2_field_two_digits: "yy < 100 \<Longrightarrow> year2_field (two_digits yy) = Some yy"
  by (simp add: year2_field_def two_digits_def digit_char_props two_digit_value)

lemma year4_field_four_digits:
  assumes "y \<le> 9999"
  shows "year4_field (four_digits y) = Some y"
proof -
  from assms have a: "y div 100 < 100" by simp
  have "1000 * (y div 100 div 10 mod 10) + 100 * (y div 100 mod 10)
        + 10 * (y mod 100 div 10 mod 10) + y mod 100 mod 10
      = 100 * (10 * (y div 100 div 10 mod 10) + y div 100 mod 10)
        + (10 * (y mod 100 div 10 mod 10) + y mod 100 mod 10)"
    by simp
  also have "\<dots> = 100 * (y div 100) + y mod 100"
    using two_digit_value [OF a] two_digit_value [of "y mod 100"] by simp
  also have "\<dots> = y" by simp
  finally show ?thesis using a
    by (simp add: year4_field_def four_digits_def two_digits_def digit_char_props)
qed

lemma month_field_upto: "\<forall>m\<in>set [1..<13]. month_field (two_digits m) = Some m"
  by code_simp

lemma month_field_two_digits:
  assumes "1 \<le> m" and "m \<le> 12"
  shows "month_field (two_digits m) = Some m"
proof -
  from assms have "m \<in> set [1..<13]" by simp
  then show ?thesis using month_field_upto by blast
qed

lemma day_field_upto: "\<forall>d\<in>set [1..<32]. day_field (two_digits d) = Some d"
  by code_simp

lemma day_field_two_digits:
  assumes "1 \<le> d" and "d \<le> 31"
  shows "day_field (two_digits d) = Some d"
proof -
  from assms have "d \<in> set [1..<32]" by simp
  then show ?thesis using day_field_upto by blast
qed

lemma month_fieldD:
  assumes "month_field mt = Some m"
  shows "1 \<le> m" and "m \<le> 12" and "mt \<noteq> []" and "CHR ''/'' \<notin> set mt" and "is_digit (hd mt)"
    and "length mt \<le> 2"
  using assms
  by (auto simp: month_field_def is_digit_def digit_val_def split: list.splits if_splits)

lemma day_fieldD:
  assumes "day_field dt = Some d"
  shows "1 \<le> d" and "d \<le> 31" and "CHR ''/'' \<notin> set dt"
  using assms
  by (auto simp: day_field_def is_digit_def digit_val_def split: list.splits if_splits)

lemma year2_fieldD: "year2_field s = Some yy \<Longrightarrow> length s = 2"
  by (auto simp: year2_field_def split: list.splits if_splits)

lemma year4_fieldD: "year4_field s = Some y \<Longrightarrow> length s = 4"
  by (auto simp: year4_field_def split: list.splits if_splits)

lemma days_in_month_le: "days_in_month y m \<le> 31"
  by (simp add: days_in_month_def)

lemma mk_date_valid:
  assumes "1 \<le> y" and "y \<le> 9999" and "1 \<le> m" and "m \<le> 12" and "1 \<le> d"
    and "d \<le> days_in_month y m"
  shows "mk_date y m d = Some (PDate y m d)"
  using assms by (simp add: mk_date_def)

lemma mod_100_century:
  fixes yy :: nat
  assumes "yy < 100"
  shows "(2000 + yy) mod 100 = yy" and "(1900 + yy) mod 100 = yy"
proof -
  have "(20 * 100 + yy) mod 100 = yy mod 100" by (rule mod_mult_self3)
  then show "(2000 + yy) mod 100 = yy" using assms by simp
  have "(19 * 100 + yy) mod 100 = yy mod 100" by (rule mod_mult_self3)
  then show "(1900 + yy) mod 100 = yy" using assms by simp
qed

lemma century_mod:
  assumes "1969 \<le> y" and "y \<le> 2068"
  shows "century (y mod 100) = y"
proof (cases "2000 \<le> y")
  case True
  define k where "k = y - 2000"
  have y: "y = 20 * 100 + k" and k: "k \<le> 68" using True assms(2) by (simp_all add: k_def)
  have "y mod 100 = k mod 100" unfolding y by (rule mod_mult_self3)
  with k y show ?thesis by (simp add: century_def)
next
  case False
  define k where "k = y - 1900"
  have y: "y = 19 * 100 + k" and k: "69 \<le> k" "k < 100" using False assms(1) by (simp_all add: k_def)
  have "y mod 100 = k mod 100" unfolding y by (rule mod_mult_self3)
  with k y show ?thesis by (simp add: century_def)
qed

subsection \<open>Rules for running the definitions on a given string\<close>

lemmas str_eval = strip_def py_isspace_def num_strip_def num_isspace_def remove_commas_def
  is_digit_def digit_val_def nat_of_digits_def

lemmas num_eval = py_int_def py_float_def lower_def lower_char_def float_mantissa_def
  float_exponent_def is_exp_mark_def

lemmas date_eval = mk_date_def days_in_month_def leap_year_def month_field_def day_field_def
  year2_field_def year4_field_def century_def

section \<open>The value coercer\<close>

lemma remove_commas_slash: "CHR ''/'' \<in> set x \<Longrightarrow> CHR ''/'' \<in> set (remove_commas x)"
  by (simp add: remove_commas_def)

lemma strptime_date_slash:
  assumes "strptime_date x f = Some v"
  shows "CHR ''/'' \<in> set x"
proof (rule ccontr)
  assume "CHR ''/'' \<notin> set x"
  then have "split_on CHR ''/'' x = [x]" by (rule split_on_no_sep)
  with assms show False by (cases f) simp_all
qed

text \<open>A string matches at most one of the three formats: they differ in the length of
  the first or of the last part.\<close>

lemma strptime_date_unique:
  assumes "strptime_date x f = Some v" and "strptime_date x g = Some w"
  shows "f = g"
proof -
  from assms(1) obtain a b c where s: "split_on CHR ''/'' x = [a, b, c]"
    by (cases f) (auto split: list.splits)
  show ?thesis
    using assms s
    by (cases f; cases g)
       (auto split: option.splits dest!: month_fieldD(6) year2_fieldD year4_fieldD)
qed

lemma format_str_slash:
  assumes "CHR ''/'' \<in> set (strip s)"
  shows "format_str s =
    (case strptime_date (strip s) Fmt_mdy of Some d \<Rightarrow> d | None \<Rightarrow>
     (case strptime_date (strip s) Fmt_mdY of Some d \<Rightarrow> d | None \<Rightarrow>
      (case strptime_date (strip s) Fmt_Ymd of Some d \<Rightarrow> d | None \<Rightarrow>
        if strip s = ''N/A'' then PNone else PStr (strip s))))"
proof -
  have "py_int (remove_commas (strip s)) = None" "py_float (remove_commas (strip s)) = None"
    using assms by (simp_all add: remove_commas_slash py_int_slash py_float_slash)
  moreover have "strip s \<noteq> []" using assms by auto
  ultimately show ?thesis
    by (simp add: format_str_def Let_def del: strptime_date.simps split: option.splits)
qed

lemma format_str_rest:
  assumes "py_int (remove_commas (strip s)) = None" and "py_float (remove_commas (strip s)) = None"
  shows "format_str s =
    (case strptime_date (strip s) Fmt_mdy of Some d \<Rightarrow> d | None \<Rightarrow>
     (case strptime_date (strip s) Fmt_mdY of Some d \<Rightarrow> d | None \<Rightarrow>
      (case strptime_date (strip s) Fmt_Ymd of Some d \<Rightarrow> d | None \<Rightarrow>
        if strip s = [] \<or> strip s = ''N/A'' then PNone else PStr (strip s))))"
  using assms
  by (simp add: format_str_def Let_def del: strptime_date.simps split: option.splits)

lemma format_str_date:
  assumes "strptime_date (strip s) f = Some d"
  shows "format_str s = d"
proof -
  have u: "\<And>g w. strptime_date (strip s) g = Some w \<Longrightarrow> g = f"
    using assms strptime_date_unique by blast
  have "format_str s =
    (case strptime_date (strip s) Fmt_mdy of Some d \<Rightarrow> d | None \<Rightarrow>
     (case strptime_date (strip s) Fmt_mdY of Some d \<Rightarrow> d | None \<Rightarrow>
      (case strptime_date (strip s) Fmt_Ymd of Some d \<Rightarrow> d | None \<Rightarrow>
        if strip s = ''N/A'' then PNone else PStr (strip s))))"
    using assms by (intro format_str_slash strptime_date_slash)
  then show ?thesis
    using assms u by (cases f) (auto simp del: strptime_date.simps split: option.splits)
qed

lemma format_str_no_date:
  assumes "py_int (remove_commas (strip s)) = None" and "py_float (remove_commas (strip s)) = None"
    and "\<forall>f. strptime_date (strip s) f = None"
  shows "format_str s = (if strip s = [] \<or> strip s = ''N/A'' then PNone else PStr (strip s))"
  using format_str_rest [OF assms(1,2)] assms(3) by (simp del: strptime_date.simps)

lemma format_str_malformed:
  assumes "CHR ''/'' \<in> set (strip s)" and "strip s \<noteq> ''N/A''"
    and "\<forall>f. strptime_date (strip s) f = None"
  shows "format_str s = PStr (strip s)"
  using format_str_slash [OF assms(1)] assms(2,3) by (simp del: strptime_date.simps)

lemma py_int_digits:
  assumes "s \<noteq> []" and "\<forall>c\<in>set s. is_digit c"
  shows "py_int s = Some (int (nat_of_digits s))"
    and "py_int (CHR ''-'' # s) = Some (- int (nat_of_digits s))"
proof -
  have ns: "\<forall>c\<in>set s. \<not> num_isspace c" using assms(2) is_digit_not_num_space by blast
  then have n: "num_strip s = s" by (rule num_strip_no_space)
  have "\<not> num_isspace CHR ''-''" by (simp add: num_isspace_def)
  with ns have "\<forall>c\<in>set (CHR ''-'' # s). \<not> num_isspace c" by simp
  then have m: "num_strip (CHR ''-'' # s) = CHR ''-'' # s" by (rule num_strip_no_space)
  obtain c cs where s: "s = c # cs" using assms(1) by (cases s) auto
  with assms(2) have "is_digit c" by simp
  then have "c \<noteq> CHR ''-''" "c \<noteq> CHR ''+''" by (auto simp: is_digit_def)
  then have sp: "split_sign s = (False, s)" using s by simp
  have d: "digitpart s" using assms by (rule digitpart_digits)
  show "py_int s = Some (int (nat_of_digits s))" unfolding py_int_def n sp using d by simp
  have sm: "split_sign (CHR ''-'' # s) = (True, s)" by simp
  show "py_int (CHR ''-'' # s) = Some (- int (nat_of_digits s))"
    unfolding py_int_def m sm using d by simp
qed

lemma format_str_thousands:
  assumes "\<forall>c\<in>set s. is_digit c \<or> c = CHR '',''" and "\<exists>c\<in>set s. is_digit c"
  shows "format_str s = PInt (int (nat_of_digits (remove_commas s)))"
    and "format_str (CHR ''-'' # s) = PInt (- int (nat_of_digits (remove_commas s)))"
proof -
  have "\<not> py_isspace CHR '',''" by (simp add: py_isspace_def)
  then have sp: "\<forall>c\<in>set s. \<not> py_isspace c"
    using assms(1) is_digit_not_space by blast
  then have s: "strip s = s" by (rule strip_no_space)
  have "\<not> py_isspace CHR ''-''" by (simp add: py_isspace_def)
  with sp have "\<forall>c\<in>set (CHR ''-'' # s). \<not> py_isspace c" by simp
  then have m: "strip (CHR ''-'' # s) = CHR ''-'' # s" by (rule strip_no_space)
  have r1: "remove_commas s \<noteq> []"
    using assms(2) by (auto simp: remove_commas_def filter_empty_conv is_digit_def)
  have r2: "\<forall>c\<in>set (remove_commas s). is_digit c"
    using assms(1) by (auto simp: remove_commas_def)
  have rm: "remove_commas (CHR ''-'' # s) = CHR ''-'' # remove_commas s"
    by (simp add: remove_commas_def)
  show "format_str s = PInt (int (nat_of_digits (remove_commas s)))"
    unfolding format_str_def Let_def s py_int_digits(1) [OF r1 r2] by simp
  show "format_str (CHR ''-'' # s) = PInt (- int (nat_of_digits (remove_commas s)))"
    unfolding format_str_def Let_def m rm py_int_digits(2) [OF r1 r2] by simp
qed

lemma format_str_examples:
  "format_str ''N/A'' = PNone" "format_str [] = PNone" "format_str ''  42  '' = PInt 42"
  "format_str ''1,234'' = PInt 1234"
  by (simp_all add: format_str_def str_eval num_eval date_eval)

text \<open>
  Claim C8. The coercer takes its steps in a fixed order, the first that succeeds
  deciding the result: the integer parse of the trimmed string without its commas, then
  the float parse of the same, then the date formats, then the test for the empty string
  and the sentinel \<^verbatim>\<open>N/A\<close>, then the trimmed string itself. So \<^verbatim>\<open>"N/A"\<close> and the empty
  string give null, \<^verbatim>\<open>"  42  "\<close> gives the integer 42, and every string of digits and
  commas with at least one digit, such as \<^verbatim>\<open>"1,234"\<close>, gives the integer its digits
  spell, negated after a minus sign.
\<close>

theorem format_str_precedence:
  "(py_int (remove_commas (strip s)) = Some n \<longrightarrow> format_str s = PInt n) \<and>
   (py_int (remove_commas (strip s)) = None \<and> py_float (remove_commas (strip s)) = Some x
      \<longrightarrow> format_str s = PFloat x) \<and>
   (py_int (remove_commas (strip s)) = None \<and> py_float (remove_commas (strip s)) = None
      \<and> strptime_date (strip s) f = Some d \<longrightarrow> format_str s = d) \<and>
   (py_int (remove_commas (strip s)) = None \<and> py_float (remove_commas (strip s)) = None
      \<and> (\<forall>g. strptime_date (strip s) g = None)
      \<longrightarrow> format_str s = (if strip s = [] \<or> strip s = ''N/A'' then PNone else PStr (strip s))) \<and>
   format_str ''N/A'' = PNone \<and> format_str [] = PNone \<and> format_str ''  42  '' = PInt 42 \<and>
   format_str ''1,234'' = PInt 1234 \<and>
   ((\<forall>c\<in>set t. is_digit c \<or> c = CHR '','') \<and> (\<exists>c\<in>set t. is_digit c)
      \<longrightarrow> format_str t = PInt (int (nat_of_digits (remove_commas t)))
          \<and> format_str (CHR ''-'' # t) = PInt (- int (nat_of_digits (remove_commas t))))"
proof -
  have "py_int (remove_commas (strip s)) = Some n \<longrightarrow> format_str s = PInt n"
    by (simp add: format_str_def)
  moreover have "py_int (remove_commas (strip s)) = None
      \<and> py_float (remove_commas (strip s)) = Some x \<longrightarrow> format_str s = PFloat x"
    by (simp add: format_str_def)
  moreover have "py_int (remove_commas (strip s)) = None
      \<and> py_float (remove_commas (strip s)) = None \<and> strptime_date (strip s) f = Some d
      \<longrightarrow> format_str s = d"
    using format_str_date by blast
  moreover have "py_int (remove_commas (strip s)) = None
      \<and> py_float (remove_commas (strip s)) = None \<and> (\<forall>g. strptime_date (strip s) g = None)
      \<longrightarrow> format_str s = (if strip s = [] \<or> strip s = ''N/A'' then PNone else PStr (strip s))"
    using format_str_no_date by blast
  moreover have "(\<forall>c\<in>set t. is_digit c \<or> c = CHR '','') \<and> (\<exists>c\<in>set t. is_digit c)
      \<longrightarrow> format_str t = PInt (int (nat_of_digits (remove_commas t)))
          \<and> format_str (CHR ''-'' # t) = PInt (- int (nat_of_digits (remove_commas t)))"
    using format_str_thousands by blast
  ultimately show ?thesis using format_str_examples by blast
qed

theorem format_str_precedence_witness:
  "py_int (remove_commas (strip '' 7 '')) = Some 7 \<and> format_str '' 7 '' = PInt 7 \<and>
   py_int (remove_commas (strip ''1,234.5'')) = None \<and>
   py_float (remove_commas (strip ''1,234.5'')) = Some (Dec False 12345 (- 1)) \<and>
   format_str ''1,234.5'' = PFloat (Dec False 12345 (- 1)) \<and>
   strptime_date (strip ''11/20/1998'') Fmt_mdY = Some (PDate 1998 11 20) \<and>
   format_str ''11/20/1998'' = PDate 1998 11 20 \<and>
   format_str ''LEO'' = PStr ''LEO'' \<and>
   format_str ''12,345'' = PInt 12345 \<and> format_str ''-12,345'' = PInt (- 12345)"
proof -
  have i: "py_int (remove_commas (strip '' 7 '')) = Some 7"
    by (simp add: str_eval num_eval)
  have f: "py_int (remove_commas (strip ''1,234.5'')) = None"
    "py_float (remove_commas (strip ''1,234.5'')) = Some (Dec False 12345 (- 1))"
    by (simp_all add: str_eval num_eval)
  have d: "py_int (remove_commas (strip ''11/20/1998'')) = None"
    "py_float (remove_commas (strip ''11/20/1998'')) = None"
    "strptime_date (strip ''11/20/1998'') Fmt_mdY = Some (PDate 1998 11 20)"
    by (simp_all add: str_eval num_eval date_eval)
  have l: "py_int (remove_commas (strip ''LEO'')) = None"
    "py_float (remove_commas (strip ''LEO'')) = None"
    by (simp_all add: str_eval num_eval)
  have st: "strip ''LEO'' = ''LEO''" by (simp add: str_eval)
  have "strptime_date (strip ''LEO'') g = None" for g
    unfolding st by (cases g) simp_all
  then have lg: "\<forall>g. strptime_date (strip ''LEO'') g = None" by blast
  have t: "\<forall>c\<in>set ''12,345''. is_digit c \<or> c = CHR '',''" "\<exists>c\<in>set ''12,345''. is_digit c"
    by (simp_all add: str_eval)
  have tv: "int (nat_of_digits (remove_commas ''12,345'')) = 12345"
    by (simp add: str_eval)
  note p = format_str_precedence
  have "format_str '' 7 '' = PInt 7"
    using p [of "'' 7 ''" 7] i by blast
  moreover have "format_str ''1,234.5'' = PFloat (Dec False 12345 (- 1))"
    using p [of "''1,234.5''" _ "Dec False 12345 (- 1)"] f by blast
  moreover have "format_str ''11/20/1998'' = PDate 1998 11 20"
    using p [of "''11/20/1998''" _ _ Fmt_mdY "PDate 1998 11 20"] d by blast
  moreover have "format_str ''LEO'' = PStr ''LEO''"
    using p [of "''LEO''"] l lg st by simp
  moreover have "format_str ''12,345'' = PInt 12345 \<and> format_str ''-12,345'' = PInt (- 12345)"
    using p [of _ _ _ _ _ "''12,345''"] t tv by simp
  ultimately show ?thesis using i f d by blast
qed

subsection \<open>Dates\<close>

lemma strptime_mdy_fields:
  assumes "month_field mt = Some m" and "day_field dt = Some d" and "is_digit a" and "is_digit b"
  shows "strptime_date (mt @ ''/'' @ dt @ ''/'' @ [a, b]) Fmt_mdy
         = mk_date (century (10 * digit_val a + digit_val b)) m d"
proof -
  have "CHR ''/'' \<notin> set [a, b]" using assms(3,4) by (auto simp: is_digit_def)
  then have "split_on CHR ''/'' (mt @ ''/'' @ dt @ ''/'' @ [a, b]) = [mt, dt, [a, b]]"
    using month_fieldD(4) [OF assms(1)] day_fieldD(3) [OF assms(2)] by (simp add: split_on_three)
  then show ?thesis using assms by (simp add: year2_field_def)
qed

lemma strip_fields:
  assumes "mt \<noteq> []" and "is_digit (hd mt)" and "is_digit (last (c # cs))"
  shows "strip (mt @ r @ c # cs) = mt @ r @ c # cs"
proof (rule strip_id)
  show "mt @ r @ c # cs \<noteq> []" by simp
  show "\<not> py_isspace (hd (mt @ r @ c # cs))" using assms by (simp add: is_digit_not_space)
  have "last (mt @ r @ c # cs) = last (c # cs)" by simp
  then show "\<not> py_isspace (last (mt @ r @ c # cs))"
    using assms(3) is_digit_not_space by presburger
qed

lemma format_str_mdy_fields:
  assumes "month_field mt = Some m" and "day_field dt = Some d" and "is_digit a" and "is_digit b"
    and "yy = 10 * digit_val a + digit_val b"
    and "y = (if yy \<le> 68 then 2000 + yy else 1900 + yy)"
    and "d \<le> days_in_month y m"
  shows "format_str (mt @ ''/'' @ dt @ ''/'' @ [a, b]) = PDate y m d"
proof -
  let ?s = "mt @ ''/'' @ dt @ ''/'' @ [a, b]"
  have s: "strip ?s = ?s"
    using strip_fields [of mt a "[b]" "''/'' @ dt @ ''/''"] month_fieldD [OF assms(1)] assms(4)
    by simp
  have yy: "yy < 100"
    using is_digit_bound [OF assms(3)] is_digit_bound [OF assms(4)] assms(5) by simp
  have cy: "century yy = y" using assms(6) by (simp add: century_def)
  have "mk_date y m d = Some (PDate y m d)"
    using month_fieldD [OF assms(1)] day_fieldD [OF assms(2)] assms(6,7) yy
    by (simp add: mk_date_def)
  then have "strptime_date (strip ?s) Fmt_mdy = Some (PDate y m d)"
    using strptime_mdy_fields [OF assms(1-4)] s assms(5) cy by simp
  then show ?thesis by (rule format_str_date)
qed

lemma field_length:
  "length s = 4 \<Longrightarrow> month_field s = None"
  "length s = 4 \<Longrightarrow> year2_field s = None"
  by (auto simp: month_field_def year2_field_def split: list.splits)

lemma format_str_MM_DD_YY:
  assumes "1 \<le> m" and "m \<le> 12" and "1 \<le> d" and "d \<le> days_in_month y m"
    and "1969 \<le> y" and "y \<le> 2068"
  shows "format_str (two_digits m @ ''/'' @ two_digits d @ ''/'' @ two_digits (y mod 100))
         = PDate y m d"
proof -
  let ?s = "two_digits m @ ''/'' @ two_digits d @ ''/'' @ two_digits (y mod 100)"
  have d: "d \<le> 31" using assms(4) days_in_month_le [of y m] by simp
  have sp: "split_on CHR ''/'' ?s = [two_digits m, two_digits d, two_digits (y mod 100)]"
    by (simp add: split_on_three two_digits_props)
  have s: "strip ?s = ?s"
    using two_digits_props [of m] two_digits_props [of "y mod 100"]
    by (intro strip_id) (simp_all add: is_digit_not_space)
  have c: "century (y mod 100) = y" using assms(5,6) by (rule century_mod)
  have "strptime_date ?s Fmt_mdy = mk_date y m d"
    using assms d sp c
    by (simp add: month_field_two_digits day_field_two_digits year2_field_two_digits)
  then have "strptime_date (strip ?s) Fmt_mdy = Some (PDate y m d)"
    using s assms by (simp add: mk_date_valid)
  then show ?thesis by (rule format_str_date)
qed

lemma format_str_MM_DD_YYYY:
  assumes "1 \<le> y" and "y \<le> 9999" and "1 \<le> m" and "m \<le> 12" and "1 \<le> d"
    and "d \<le> days_in_month y m"
  shows "format_str (two_digits m @ ''/'' @ two_digits d @ ''/'' @ four_digits y) = PDate y m d"
proof -
  let ?s = "two_digits m @ ''/'' @ two_digits d @ ''/'' @ four_digits y"
  have d: "d \<le> 31" using assms(6) days_in_month_le [of y m] by simp
  have sp: "split_on CHR ''/'' ?s = [two_digits m, two_digits d, four_digits y]"
    by (simp add: split_on_three two_digits_props four_digits_props)
  have s: "strip ?s = ?s"
    using two_digits_props [of m] four_digits_props [of y]
    by (intro strip_id) (simp_all add: is_digit_not_space)
  have "strptime_date ?s Fmt_mdY = mk_date y m d"
    using assms d sp
    by (simp add: month_field_two_digits day_field_two_digits year4_field_four_digits)
  then have "strptime_date (strip ?s) Fmt_mdY = Some (PDate y m d)"
    using s assms by (simp add: mk_date_valid)
  then show ?thesis by (rule format_str_date)
qed

lemma format_str_YYYY_MM_DD:
  assumes "1 \<le> y" and "y \<le> 9999" and "1 \<le> m" and "m \<le> 12" and "1 \<le> d"
    and "d \<le> days_in_month y m"
  shows "format_str (four_digits y @ ''/'' @ two_digits m @ ''/'' @ two_digits d) = PDate y m d"
proof -
  let ?s = "four_digits y @ ''/'' @ two_digits m @ ''/'' @ two_digits d"
  have d: "d \<le> 31" using assms(6) days_in_month_le [of y m] by simp
  have sp: "split_on CHR ''/'' ?s = [four_digits y, two_digits m, two_digits d]"
    by (simp add: split_on_three two_digits_props four_digits_props)
  have s: "strip ?s = ?s"
    using two_digits_props [of d] four_digits_props [of y]
    by (intro strip_id) (simp_all add: is_digit_not_space)
  have "strptime_date ?s Fmt_Ymd = mk_date y m d"
    using assms d sp
    by (simp add: month_field_two_digits day_field_two_digits year4_field_four_digits)
  then have "strptime_date (strip ?s) Fmt_Ymd = Some (PDate y m d)"
    using s assms by (simp add: mk_date_valid)
  then show ?thesis by (rule format_str_date)
qed

text \<open>
  Claim C9, as amended. Whatever date one of the three formats reads from the trimmed
  string is the result, and a string matches at most one format. In particular, for every
  valid calendar date \<open>y\<close>-\<open>m\<close>-\<open>d\<close>, its spellings \<^verbatim>\<open>MM/DD/YYYY\<close> and \<^verbatim>\<open>YYYY/MM/DD\<close>,
  and \<^verbatim>\<open>MM/DD/YY\<close> for the years 1969 to 2068, give that date, which has no time
  component. A string with a slash that no format reads as a valid date, other than the
  sentinel \<^verbatim>\<open>N/A\<close>, comes back trimmed of surrounding white space: it is the original
  string only when that carries none.
\<close>

theorem format_str_dates:
  "(strptime_date (strip s) f = Some v \<longrightarrow> format_str s = v) \<and>
   (strptime_date (strip s) f = Some v \<and> strptime_date (strip s) g = Some w \<longrightarrow> f = g) \<and>
   (1 \<le> y \<and> y \<le> 9999 \<and> 1 \<le> m \<and> m \<le> 12 \<and> 1 \<le> d \<and> d \<le> days_in_month y m \<longrightarrow>
      format_str (two_digits m @ ''/'' @ two_digits d @ ''/'' @ four_digits y) = PDate y m d \<and>
      format_str (four_digits y @ ''/'' @ two_digits m @ ''/'' @ two_digits d) = PDate y m d \<and>
      (1969 \<le> y \<and> y \<le> 2068 \<longrightarrow>
         format_str (two_digits m @ ''/'' @ two_digits d @ ''/'' @ two_digits (y mod 100))
         = PDate y m d)) \<and>
   (CHR ''/'' \<in> set (strip s) \<and> strip s \<noteq> ''N/A'' \<and> (\<forall>h. strptime_date (strip s) h = None)
      \<longrightarrow> format_str s = PStr (strip s))"
  using format_str_date [of s f v] strptime_date_unique [of "strip s" f v g w]
    format_str_MM_DD_YYYY [of y m d] format_str_YYYY_MM_DD [of y m d]
    format_str_MM_DD_YY [of m d y] format_str_malformed [of s]
  by blast

theorem format_str_dates_witness:
  "strptime_date (strip ''  4/24/1990 '') Fmt_mdY = Some (PDate 1990 4 24) \<and>
   format_str ''  4/24/1990 '' = PDate 1990 4 24 \<and>
   format_str ''11/20/1998'' = PDate 1998 11 20 \<and>
   format_str ''1998/11/20'' = PDate 1998 11 20 \<and>
   format_str ''11/20/98'' = PDate 1998 11 20 \<and>
   CHR ''/'' \<in> set (strip '' 13/45/99 '') \<and> strip '' 13/45/99 '' \<noteq> ''N/A'' \<and>
   format_str '' 13/45/99 '' = PStr ''13/45/99''"
proof -
  note p = format_str_dates
  have a: "strptime_date (strip ''  4/24/1990 '') Fmt_mdY = Some (PDate 1990 4 24)"
    by (simp add: str_eval date_eval)
  have a': "format_str ''  4/24/1990 '' = PDate 1990 4 24"
    using p [of "''  4/24/1990 ''" Fmt_mdY "PDate 1990 4 24"] a by blast
  have v: "(1::nat) \<le> 1998 \<and> (1998::nat) \<le> 9999 \<and> (1::nat) \<le> 11 \<and> (11::nat) \<le> 12 \<and> (1::nat) \<le> 20
      \<and> 20 \<le> days_in_month 1998 11 \<and> (1969::nat) \<le> 1998 \<and> (1998::nat) \<le> 2068"
    by (simp add: date_eval)
  have r: "two_digits 11 = ''11''" "two_digits 20 = ''20''" "four_digits 1998 = ''1998''"
    "two_digits (1998 mod 100) = ''98''"
    by (simp_all add: two_digits_def four_digits_def digit_char_def)
  have b: "format_str ''11/20/1998'' = PDate 1998 11 20 \<and>
      format_str ''1998/11/20'' = PDate 1998 11 20 \<and> format_str ''11/20/98'' = PDate 1998 11 20"
    using p [of _ _ _ _ _ 1998 11 20] v r by simp
  have st: "strip '' 13/45/99 '' = ''13/45/99''" by (simp add: str_eval)
  have "strptime_date (strip '' 13/45/99 '') h = None" for h
    unfolding st by (cases h) (simp_all add: str_eval date_eval)
  then have n: "\<forall>h. strptime_date (strip '' 13/45/99 '') h = None" by blast
  have c: "CHR ''/'' \<in> set (strip '' 13/45/99 '')" "strip '' 13/45/99 '' \<noteq> ''N/A''"
    by (simp_all add: st)
  have "format_str '' 13/45/99 '' = PStr ''13/45/99''"
    using p [of "'' 13/45/99 ''"] c n st by simp
  with a a' b c show ?thesis by blast
qed

text \<open>
  The claim as it was stated fails on a malformed date with surrounding white space:
  the result is not the original string.
\<close>

theorem format_str_malformed_date_trimmed:
  "format_str '' 13/45/99 '' = PStr ''13/45/99'' \<and> format_str '' 13/45/99 '' \<noteq> PStr '' 13/45/99 ''"
  by (simp add: format_str_def str_eval num_eval date_eval)

text \<open>
  Claim C10. A date read by the two-digit-year format \<^verbatim>\<open>%m/%d/%y\<close> gets its century
  from a fixed pivot: the years 00 to 68 are 2000 to 2068, and 69 to 99 are 1969 to
  1999. This holds for every month and day text the format accepts, in particular for
  the two-digit spellings; \<^verbatim>\<open>"12/31/99"\<close> is 1999-12-31 and \<^verbatim>\<open>"01/01/50"\<close> is 2050-01-01.
\<close>

theorem format_str_two_digit_year:
  "(month_field mt = Some m \<and> day_field dt = Some d \<and> is_digit a \<and> is_digit b
      \<and> yy = 10 * digit_val a + digit_val b
      \<and> y = (if yy \<le> 68 then 2000 + yy else 1900 + yy) \<and> d \<le> days_in_month y m
      \<longrightarrow> format_str (mt @ ''/'' @ dt @ ''/'' @ [a, b]) = PDate y m d) \<and>
   (1 \<le> m' \<and> m' \<le> 12 \<and> 1 \<le> d' \<and> yy' < 100
      \<and> y' = (if yy' \<le> 68 then 2000 + yy' else 1900 + yy') \<and> d' \<le> days_in_month y' m'
      \<longrightarrow> format_str (two_digits m' @ ''/'' @ two_digits d' @ ''/'' @ two_digits yy')
          = PDate y' m' d') \<and>
   format_str ''12/31/99'' = PDate 1999 12 31 \<and> format_str ''01/01/50'' = PDate 2050 1 1"
proof -
  have 1: "month_field mt = Some m \<and> day_field dt = Some d \<and> is_digit a \<and> is_digit b
      \<and> yy = 10 * digit_val a + digit_val b
      \<and> y = (if yy \<le> 68 then 2000 + yy else 1900 + yy) \<and> d \<le> days_in_month y m
      \<longrightarrow> format_str (mt @ ''/'' @ dt @ ''/'' @ [a, b]) = PDate y m d"
    using format_str_mdy_fields by blast
  have 2: "format_str (two_digits m' @ ''/'' @ two_digits d' @ ''/'' @ two_digits yy')
          = PDate y' m' d'"
    if h: "1 \<le> m'" "m' \<le> 12" "1 \<le> d'" "yy' < 100"
      "y' = (if yy' \<le> 68 then 2000 + yy' else 1900 + yy')" "d' \<le> days_in_month y' m'"
  proof -
    have "1969 \<le> y'" "y' \<le> 2068" "y' mod 100 = yy'"
      using h(4,5) mod_100_century [of yy'] by (simp_all split: if_splits)
    then show ?thesis using format_str_MM_DD_YY [of m' d' y'] h by simp
  qed
  have 3: "format_str ''12/31/99'' = PDate 1999 12 31" "format_str ''01/01/50'' = PDate 2050 1 1"
    by (simp_all add: format_str_def str_eval num_eval date_eval)
  from 1 2 3 show ?thesis by blast
qed

theorem format_str_two_digit_year_witness:
  "month_field ''2'' = Some 2 \<and> day_field ''29'' = Some 29 \<and> is_digit CHR ''0'' \<and> is_digit CHR ''4''
   \<and> (29::nat) \<le> days_in_month 2004 2 \<and> format_str ''2/29/04'' = PDate 2004 2 29
   \<and> (31::nat) \<le> days_in_month 1969 12 \<and> format_str ''12/31/69'' = PDate 1969 12 31"
proof -
  note p = format_str_two_digit_year
  have h: "month_field ''2'' = Some 2" "day_field ''29'' = Some 29" "is_digit CHR ''0''"
    "is_digit CHR ''4''" "(4::nat) = 10 * digit_val CHR ''0'' + digit_val CHR ''4''"
    "(2004::nat) = (if (4::nat) \<le> 68 then 2000 + 4 else 1900 + 4)"
    "(29::nat) \<le> days_in_month 2004 2"
    by (simp_all add: str_eval date_eval)
  have "format_str (''2'' @ ''/'' @ ''29'' @ ''/'' @ [CHR ''0'', CHR ''4'']) = PDate 2004 2 29"
    using p [where mt = "''2''" and m = 2 and dt = "''29''" and d = 29 and a = "CHR ''0''"
        and b = "CHR ''4''" and yy = 4 and y = 2004] h
    by blast
  then have a: "format_str ''2/29/04'' = PDate 2004 2 29" by simp
  have k: "(1::nat) \<le> 12" "(12::nat) \<le> 12" "(1::nat) \<le> 31" "(69::nat) < 100"
    "(1969::nat) = (if (69::nat) \<le> 68 then 2000 + 69 else 1900 + 69)"
    "(31::nat) \<le> days_in_month 1969 12"
    by (simp_all add: date_eval)
  have r: "two_digits 12 = ''12''" "two_digits 31 = ''31''" "two_digits 69 = ''69''"
    by (simp_all add: two_digits_def digit_char_def)
  have "format_str (two_digits 12 @ ''/'' @ two_digits 31 @ ''/'' @ two_digits 69)
      = PDate 1969 12 31"
    using p [where m' = 12 and d' = 31 and yy' = 69 and y' = 1969] k by blast
  then have b: "format_str ''12/31/69'' = PDate 1969 12 31" by (simp add: r)
  from h(1-4,7) a k(6) b show ?thesis by blast
qed

section \<open>The fixed-width parser: short lines\<close>

lemma parse_celestrak_row_short:
  assumes "length line < 22"
  shows "parse_celestrak_row line = Inl IndexError"
  using assms by (auto simp: parse_celestrak_row_def index_at_def)

lemma parse_celestrak_row_long:
  assumes "22 \<le> length line"
  shows "parse_celestrak_row line =
     Inr [PStr (slice line 0 11), PStr (slice line 13 18), PInt 1, PInt 1, PStr [line ! 21],
          PStr (slice line 23 47), PStr (slice line 49 54), PStr (slice line 56 66),
          PStr (slice line 69 73), PStr (slice line 75 85), PStr (slice line 87 94),
          PStr (slice line 96 101), PStr (slice line 103 109), PStr (slice line 111 117),
          PStr (slice line 119 127), PStr (slice line 129 132)]"
  using assms by (simp add: parse_celestrak_row_def index_at_def flag_of_def)

lemma slice_beyond: "length s \<le> a \<Longrightarrow> slice s a b = []"
  by (simp add: slice_def)

text \<open>
  The parser fails exactly on the lines of fewer than 22 characters. On every other
  line it returns 16 fields, both flags are 1 whatever the two characters are, and a
  slice that starts beyond the end of the line is the empty string.
\<close>

theorem parse_celestrak_row_cases:
  "(length line < 22 \<longrightarrow> parse_celestrak_row line = Inl IndexError) \<and>
   (22 \<le> length line \<longrightarrow>
      (\<exists>t. parse_celestrak_row line = Inr t \<and> length t = 16 \<and> t ! 2 = PInt 1 \<and> t ! 3 = PInt 1
           \<and> (length line \<le> 129 \<longrightarrow> t ! 15 = PStr [])))"
  using parse_celestrak_row_short [of line] parse_celestrak_row_long [of line]
    slice_beyond [of line 129 132]
  by simp

theorem parse_celestrak_row_cases_witness:
  "length ''1957-001A    00002  *D SPUTNIK 2'' = 32 \<and>
   parse_celestrak_row ''1957-001A    00002  *D SPUTNIK 2'' =
     Inr [PStr ''1957-001A  '', PStr ''00002'', PInt 1, PInt 1, PStr ''D'', PStr ''SPUTNIK 2'',
          PStr [], PStr [], PStr [], PStr [], PStr [], PStr [], PStr [], PStr [], PStr [], PStr []] \<and>
   length ''1957-001A'' = 9 \<and> parse_celestrak_row ''1957-001A'' = Inl IndexError"
proof -
  note p = parse_celestrak_row_cases
  have l: "22 \<le> length ''1957-001A    00002  *D SPUTNIK 2''" "length ''1957-001A'' < 22"
    by simp_all
  have "parse_celestrak_row ''1957-001A'' = Inl IndexError"
    using p [of "''1957-001A''"] l(2) by blast
  moreover have "\<exists>t. parse_celestrak_row ''1957-001A    00002  *D SPUTNIK 2'' = Inr t"
    using p [of "''1957-001A    00002  *D SPUTNIK 2''"] l(1) by blast
  moreover have "parse_celestrak_row ''1957-001A    00002  *D SPUTNIK 2'' =
     Inr [PStr ''1957-001A  '', PStr ''00002'', PInt 1, PInt 1, PStr ''D'', PStr ''SPUTNIK 2'',
          PStr [], PStr [], PStr [], PStr [], PStr [], PStr [], PStr [], PStr [], PStr [], PStr []]"
    by (simp add: parse_celestrak_row_def index_at_def flag_of_def slice_def)
  ultimately show ?thesis by simp
qed

text \<open>
  Claim C5. The claim has the flag taken from an empty slice be 0. The parser reads the
  two flags by index, not by slice: on a line of 20 characters, which has a character at
  offset 19 and none at offset 20, line 216 raises \<^verbatim>\<open>IndexError\<close> and no tuple is
  returned, where the claim asks for the flags 1 and 0.
\<close>

theorem parse_celestrak_row_flag_line:
  "length ''1957-001A    00002 M'' = 20 \<and>
   parse_celestrak_row ''1957-001A    00002 M'' = Inl IndexError"
  by (simp add: parse_celestrak_row_def index_at_def)

text \<open>
  Claim C6. The claim has every short line parsed into 16 fields. A line of 21
  characters reaches line 222, \<^verbatim>\<open>line[21]\<close>, which raises \<^verbatim>\<open>IndexError\<close>; the empty line
  fails the same way on line 210.
\<close>

theorem parse_celestrak_row_short_line:
  "length ''1957-001A    00002 M*'' = 21 \<and>
   parse_celestrak_row ''1957-001A    00002 M*'' = Inl IndexError \<and>
   parse_celestrak_row [] = Inl IndexError"
  by (simp add: parse_celestrak_row_def index_at_def)

section \<open>The fingerprint\<close>

lemma length_hex_word: "length (hex_word w) = 8"
  by (simp add: hex_word_def hex_byte_def upt_rec)

lemma length_hexdigest: "length (hexdigest st) = 32"
  by (cases st) (simp add: hexdigest_def length_hex_word)

lemma length_fingerprint_line: "length (fingerprint_line line) = 32"
  by (simp add: fingerprint_line_def length_hexdigest)

text \<open>
  Claim C7, as amended. The fingerprint of a row is the MD5 digest, 32 hexadecimal digits
  long, of the UTF-8 bytes of the string forms of its cells, joined in column order with
  nothing between them; null is written \<^verbatim>\<open>None\<close>. It is a function of that joined
  string alone: two rows whose joined strings agree have the same fingerprint, whether
  or not their cells agree.
\<close>

theorem record_fingerprint_of_joined_cells:
  "record_fingerprint row = hexdigest (md5 (encode_utf8 (concat (map py_str row)))) \<and>
   py_str PNone = ''None'' \<and>
   length (record_fingerprint row) = 32 \<and>
   (concat (map py_str row) = concat (map py_str row')
      \<longrightarrow> record_fingerprint row = record_fingerprint row')"
  by (simp add: record_fingerprint_def fingerprint_line_def length_hexdigest)

theorem record_fingerprint_of_joined_cells_witness:
  "concat (map py_str [PInt 1, PInt 23]) = concat (map py_str [PInt 12, PInt 3]) \<and>
   record_fingerprint [PInt 1, PInt 23] = record_fingerprint [PInt 12, PInt 3]"
proof -
  have j: "concat (map py_str [PInt 1, PInt 23]) = concat (map py_str [PInt 12, PInt 3])"
    by (simp add: digit_char_def)
  then show ?thesis
    using record_fingerprint_of_joined_cells [of "[PInt 1, PInt 23]" "[PInt 12, PInt 3]"]
    by blast
qed

text \<open>
  The claim as it was stated fails: these two rows differ in both fields and have one
  fingerprint, as do a null cell and the string \<^verbatim>\<open>None\<close>.
\<close>

theorem record_fingerprint_collision:
  "[PStr ''ab'', PStr ''c''] \<noteq> [PStr ''a'', PStr ''bc''] \<and>
   record_fingerprint [PStr ''ab'', PStr ''c''] = record_fingerprint [PStr ''a'', PStr ''bc''] \<and>
   [PNone] \<noteq> [PStr ''None''] \<and>
   record_fingerprint [PNone] = record_fingerprint [PStr ''None'']"
  by (simp add: record_fingerprint_def)

section \<open>The reconciler\<close>

lemma loc_error: "loc df key = Inl e \<Longrightarrow> e = KeyError"
  by (auto simp: loc_def split: option.splits if_splits)

lemma fix_row_matched:
  assumes "format (satdb_row ''norad_number'') = Inr key" and "loc satcat key = Inr r"
  shows "fix_row satcat draw satdb_row =
         Inr (if draw < 3 then (override satdb_row r)(''name'' := PStr ''BLAH BLAH BLAH'')
              else override satdb_row r, None)"
  using assms by (simp add: fix_row_def)

lemma fix_row_unmatched:
  assumes "format (satdb_row ''norad_number'') = Inr key" and "loc satcat key = Inl e"
  shows "fix_row satcat draw satdb_row = Inr (satdb_row, Some key)"
  using assms loc_error [OF assms(2)] by (simp add: fix_row_def)

lemma fix_row_warning:
  assumes "fix_row satcat draw satdb_row = Inr (fixed, w)"
  shows "(w = None) = is_matched satcat satdb_row"
  using assms
  by (auto simp: fix_row_def is_matched_def split: sum.splits if_splits)

lemma fix_loop_length:
  "fix_loop satcat rnd k rows = Inr (rows', ws) \<Longrightarrow> length rows' = length rows"
proof (induction rows arbitrary: k rows' ws)
  case Nil
  then show ?case by simp
next
  case (Cons r rows)
  then show ?case by (auto split: sum.splits prod.splits)
qed

lemma fix_loop_nth:
  assumes "fix_loop satcat rnd k rows = Inr (rows', ws)" and "i < length rows"
  shows "\<exists>w. fix_row satcat (rnd (k + length (filter (is_matched satcat) (take i rows)))) (rows ! i)
             = Inr (rows' ! i, w)"
  using assms
proof (induction rows arbitrary: k rows' ws i)
  case Nil
  then show ?case by simp
next
  case (Cons r rows)
  from Cons.prems(1) obtain fixed w rest ws' where
    r: "fix_row satcat (rnd k) r = Inr (fixed, w)" and
    l: "fix_loop satcat rnd (case w of None \<Rightarrow> k + 1 | Some x \<Rightarrow> k) rows = Inr (rest, ws')" and
    e: "rows' = fixed # rest"
    by (auto split: sum.splits prod.splits)
  show ?case
  proof (cases i)
    case 0
    with r e show ?thesis by simp
  next
    case (Suc j)
    with Cons.prems(2) have j: "j < length rows" by simp
    from Cons.IH [OF l j] obtain w' where
      "fix_row satcat (rnd ((case w of None \<Rightarrow> k + 1 | Some x \<Rightarrow> k)
          + length (filter (is_matched satcat) (take j rows)))) (rows ! j) = Inr (rest ! j, w')"
      by blast
    moreover have "(case w of None \<Rightarrow> k + 1 | Some x \<Rightarrow> k)
        = k + (if is_matched satcat r then 1 else 0)"
      using fix_row_warning [OF r] by (cases w) auto
    ultimately show ?thesis using Suc e by auto
  qed
qed

lemma fix_loop_cong:
  assumes "\<forall>j. k \<le> j \<and> j < k + length rows \<longrightarrow> rnd j = rnd' j"
  shows "fix_loop satcat rnd k rows = fix_loop satcat rnd' k rows"
  using assms
proof (induction rows arbitrary: k)
  case Nil
  then show ?case by simp
next
  case (Cons r rows)
  from Cons.prems have k: "rnd k = rnd' k" by simp
  have "fix_loop satcat rnd k rows = fix_loop satcat rnd' k rows"
    using Cons.prems by (intro Cons.IH) simp
  moreover have "fix_loop satcat rnd (k + 1) rows = fix_loop satcat rnd' (k + 1) rows"
    using Cons.prems by (intro Cons.IH) simp
  ultimately show ?case using k by (auto split: sum.splits prod.splits option.splits)
qed

text \<open>What the run leaves in row \<open>i\<close> when the lookup for it succeeds.\<close>

lemma fix_discrepencies_matched_row:
  assumes "fix_discrepencies rnd satdb satcat = Inr (fixed, warnings)" and "i < length satdb"
    and "format ((satdb ! i) ''norad_number'') = Inr key" and "loc satcat key = Inr r"
  shows "fixed ! i =
         (if rnd (draw_index satcat satdb i) < 3
          then (override (satdb ! i) r)(''name'' := PStr ''BLAH BLAH BLAH'')
          else override (satdb ! i) r)"
proof -
  from fix_loop_nth [OF assms(1) [unfolded fix_discrepencies_def] assms(2)]
  obtain w where "fix_row satcat (rnd (draw_index satcat satdb i)) (satdb ! i) = Inr (fixed ! i, w)"
    by (auto simp: draw_index_def)
  then show ?thesis using assms(3,4) by (simp add: fix_row_matched)
qed

text \<open>What the run leaves in row \<open>i\<close> when the lookup for it raises \<^verbatim>\<open>KeyError\<close>.\<close>

lemma fix_discrepencies_unmatched_row:
  assumes "fix_discrepencies rnd satdb satcat = Inr (fixed, warnings)" and "i < length satdb"
    and "format ((satdb ! i) ''norad_number'') = Inr key" and "loc satcat key = Inl e"
  shows "fixed ! i = satdb ! i"
proof -
  from fix_loop_nth [OF assms(1) [unfolded fix_discrepencies_def] assms(2)]
  obtain w where "fix_row satcat (rnd (draw_index satcat satdb i)) (satdb ! i) = Inr (fixed ! i, w)"
    by (auto simp: draw_index_def)
  then show ?thesis using assms(3,4) by (simp add: fix_row_unmatched)
qed

lemmas frame_eval = fix_discrepencies_def fix_row_def loc_def override_def registry_row_def
  catalog_iss_def catalog_hst_def catalog_zero_def make_row_def satcat_columns_def

text \<open>
  Claim C1. The claim has the lookup find the tracking-catalog row whose catalog number
  equals the key. The lookup of line 107 goes by the position of the row instead, since
  the frame never got the catalog number as its index (line 97): a registry row with
  catalog number 25544 and a catalog whose only row has that number are not matched, the
  registry row stays as it was and a warning names 25544, while the lookup the
  specification words finds the row.
\<close>

theorem fix_discrepencies_lookup_by_position:
  "fix_discrepencies rnd [registry_row (PInt 25544)] [catalog_iss]
     = Inr ([registry_row (PInt 25544)], [PInt 25544]) \<and>
   catalog_iss ''norad_num'' = PInt 25544 \<and>
   spec_lookup [catalog_iss] (PInt 25544) = Some catalog_iss \<and>
   loc [catalog_iss] (PInt 25544) = Inl KeyError"
  by (simp add: frame_eval spec_lookup_def)

text \<open>
  Claim C3. The claim has a registry row whose catalog number is absent from the
  tracking catalog left as it was, with one warning. Catalog number 1 is in no row of
  this catalog, yet it is the position of the second row: the run overwrites the
  registry row with the fields of that satellite and logs no warning.
\<close>

theorem fix_discrepencies_absent_key_overwritten:
  "spec_lookup [catalog_iss, catalog_hst] (PInt 1) = None \<and>
   fix_discrepencies rnd [registry_row (PInt 1)] [catalog_iss, catalog_hst]
     = Inr ([if rnd 0 < 3
             then (override (registry_row (PInt 1)) catalog_hst)(''name'' := PStr ''BLAH BLAH BLAH'')
             else override (registry_row (PInt 1)) catalog_hst], []) \<and>
   registry_row (PInt 1) ''launch_site'' = PNone \<and>
   override (registry_row (PInt 1)) catalog_hst ''launch_site'' = PStr ''AFETR'' \<and>
   ((override (registry_row (PInt 1)) catalog_hst)(''name'' := PStr ''BLAH BLAH BLAH''))
      ''launch_site'' = PStr ''AFETR''"
  by (simp add: frame_eval spec_lookup_def digit_char_def)

text \<open>
  Claim C2, as amended. For every registry row for which the lookup of line 107 yields a
  tracking-catalog row \<open>r\<close>, the run overwrites seven fields with the fields of \<open>r\<close>:
  perigee, apogee, inclination, period, launch date, launch site and international
  designator. It overwrites the name with the name in \<open>r\<close>, unless the random draw made
  for the row is 1 or 2: then the name becomes \<^verbatim>\<open>BLAH BLAH BLAH\<close>. Every other field of
  the row is as before.
\<close>

theorem fix_discrepencies_overrides:
  "fix_discrepencies rnd satdb satcat = Inr (fixed, warnings) \<and> i < length satdb
     \<and> format ((satdb ! i) ''norad_number'') = Inr key \<and> loc satcat key = Inr r
   \<longrightarrow> fixed ! i = (satdb ! i)
         (''name'' := (if rnd (draw_index satcat satdb i) < 3 then PStr ''BLAH BLAH BLAH''
                       else r ''name''),
          ''perigee_km'' := r ''perigee'',
          ''apogee_km'' := r ''apogee'',
          ''inclination_degrees'' := r ''inclination_deg'',
          ''period_minutes'' := r ''orbit_period_minutes'',
          ''launch_date'' := r ''launch_date'',
          ''launch_site'' := r ''launch_site'',
          ''international_designator'' := r ''intl_desg'')
       \<and> (\<forall>c. c \<notin> set [''name'', ''perigee_km'', ''apogee_km'', ''inclination_degrees'',
                        ''period_minutes'', ''launch_date'', ''launch_site'',
                        ''international_designator'']
              \<longrightarrow> (fixed ! i) c = (satdb ! i) c)"
proof (intro impI, elim conjE)
  assume a: "fix_discrepencies rnd satdb satcat = Inr (fixed, warnings)" "i < length satdb"
    "format ((satdb ! i) ''norad_number'') = Inr key" "loc satcat key = Inr r"
  have e: "fixed ! i =
         (if rnd (draw_index satcat satdb i) < 3
          then (override (satdb ! i) r)(''name'' := PStr ''BLAH BLAH BLAH'')
          else override (satdb ! i) r)"
    using a by (rule fix_discrepencies_matched_row)
  show "fixed ! i = (satdb ! i)
         (''name'' := (if rnd (draw_index satcat satdb i) < 3 then PStr ''BLAH BLAH BLAH''
                       else r ''name''),
          ''perigee_km'' := r ''perigee'',
          ''apogee_km'' := r ''apogee'',
          ''inclination_degrees'' := r ''inclination_deg'',
          ''period_minutes'' := r ''orbit_period_minutes'',
          ''launch_date'' := r ''launch_date'',
          ''launch_site'' := r ''launch_site'',
          ''international_designator'' := r ''intl_desg'')
       \<and> (\<forall>c. c \<notin> set [''name'', ''perigee_km'', ''apogee_km'', ''inclination_degrees'',
                        ''period_minutes'', ''launch_date'', ''launch_site'',
                        ''international_designator'']
              \<longrightarrow> (fixed ! i) c = (satdb ! i) c)"
    unfolding e by (auto simp: override_def fun_eq_iff)
qed

theorem fix_discrepencies_overrides_witness:
  "fix_discrepencies (\<lambda>k. 5) [registry_row (PInt 0)] [catalog_zero]
     = Inr ([override (registry_row (PInt 0)) catalog_zero], []) \<and>
   (0::nat) < length [registry_row (PInt 0)] \<and>
   format (([registry_row (PInt 0)] ! 0) ''norad_number'') = Inr (PInt 0) \<and>
   loc [catalog_zero] (PInt 0) = Inr catalog_zero \<and>
   override (registry_row (PInt 0)) catalog_zero ''name'' = PStr ''ISS (ZARYA)'' \<and>
   override (registry_row (PInt 0)) catalog_zero ''apogee_km'' = PInt 421 \<and>
   override (registry_row (PInt 0)) catalog_zero ''users'' = PStr ''Government''"
proof -
  let ?reg = "registry_row (PInt 0)"
  let ?out = "override ?reg catalog_zero"
  have h: "fix_discrepencies (\<lambda>k. 5) [?reg] [catalog_zero] = Inr ([?out], [])"
    "(0::nat) < length [?reg]"
    "format (([?reg] ! 0) ''norad_number'') = Inr (PInt 0)"
    "loc [catalog_zero] (PInt 0) = Inr catalog_zero"
    by (simp_all add: fix_discrepencies_def fix_row_def loc_def registry_row_def)
  have d: "\<not> (5::int) < 3" by simp
  from fix_discrepencies_overrides [where rnd = "\<lambda>k. 5" and satdb = "[?reg]"
      and satcat = "[catalog_zero]" and fixed = "[?out]" and warnings = "[]" and i = 0
      and key = "PInt 0" and r = catalog_zero] h
  have "[?out] ! 0 = ([?reg] ! 0)
         (''name'' := (if (5::int) < 3 then PStr ''BLAH BLAH BLAH'' else catalog_zero ''name''),
          ''perigee_km'' := catalog_zero ''perigee'',
          ''apogee_km'' := catalog_zero ''apogee'',
          ''inclination_degrees'' := catalog_zero ''inclination_deg'',
          ''period_minutes'' := catalog_zero ''orbit_period_minutes'',
          ''launch_date'' := catalog_zero ''launch_date'',
          ''launch_site'' := catalog_zero ''launch_site'',
          ''international_designator'' := catalog_zero ''intl_desg'')"
    by blast
  then have "?out ''name'' = catalog_zero ''name''" "?out ''apogee_km'' = catalog_zero ''apogee''"
    "?out ''users'' = ?reg ''users''"
    using d by simp_all
  then have "?out ''name'' = PStr ''ISS (ZARYA)''" "?out ''apogee_km'' = PInt 421"
    "?out ''users'' = PStr ''Government''"
    by (simp_all add: catalog_zero_def catalog_iss_def make_row_def satcat_columns_def
        registry_row_def)
  with h show ?thesis by blast
qed

text \<open>
  The claim as it was stated fails when the draw is 1: the registry row and the catalog
  row have catalog number 0, the catalog row is the one the lookup yields, and the name
  left in the registry row is not the name in the catalog row.
\<close>

theorem fix_discrepencies_placeholder_name:
  "fix_discrepencies (\<lambda>k. 1) [registry_row (PInt 0)] [catalog_zero]
     = Inr ([(override (registry_row (PInt 0)) catalog_zero)(''name'' := PStr ''BLAH BLAH BLAH'')],
            []) \<and>
   spec_lookup [catalog_zero] (PInt 0) = Some catalog_zero \<and>
   catalog_zero ''name'' = PStr ''ISS (ZARYA)'' \<and>
   ((override (registry_row (PInt 0)) catalog_zero)(''name'' := PStr ''BLAH BLAH BLAH'')) ''name''
     \<noteq> catalog_zero ''name''"
  by (simp add: frame_eval spec_lookup_def)

text \<open>
  Claim C4, as amended. The reconciled frame is a function of the two frames and of the
  random draws: two runs on the same frames whose draws agree, as far as there are
  registry rows, give the same result. The name left in a row whose lookup succeeded is
  the name in the tracking-catalog row exactly when the draw made for the row is at
  least 3; when the draw is 1 or 2 it is the placeholder \<^verbatim>\<open>BLAH BLAH BLAH\<close>.
\<close>

theorem fix_discrepencies_depends_on_draws:
  "((\<forall>j. j < length satdb \<longrightarrow> rnd j = rnd' j)
      \<longrightarrow> fix_discrepencies rnd satdb satcat = fix_discrepencies rnd' satdb satcat) \<and>
   (fix_discrepencies rnd satdb satcat = Inr (fixed, warnings) \<and> i < length satdb
      \<and> format ((satdb ! i) ''norad_number'') = Inr key \<and> loc satcat key = Inr r
    \<longrightarrow> (fixed ! i) ''name''
        = (if rnd (draw_index satcat satdb i) < 3 then PStr ''BLAH BLAH BLAH'' else r ''name''))"
proof (intro conjI impI)
  assume "\<forall>j. j < length satdb \<longrightarrow> rnd j = rnd' j"
  then have "\<forall>j. 0 \<le> j \<and> j < 0 + length satdb \<longrightarrow> rnd j = rnd' j" by simp
  then show "fix_discrepencies rnd satdb satcat = fix_discrepencies rnd' satdb satcat"
    unfolding fix_discrepencies_def by (rule fix_loop_cong)
next
  assume "fix_discrepencies rnd satdb satcat = Inr (fixed, warnings) \<and> i < length satdb
      \<and> format ((satdb ! i) ''norad_number'') = Inr key \<and> loc satcat key = Inr r"
  then have "fixed ! i =
         (if rnd (draw_index satcat satdb i) < 3
          then (override (satdb ! i) r)(''name'' := PStr ''BLAH BLAH BLAH'')
          else override (satdb ! i) r)"
    using fix_discrepencies_matched_row by blast
  then show "(fixed ! i) ''name''
        = (if rnd (draw_index satcat satdb i) < 3 then PStr ''BLAH BLAH BLAH'' else r ''name'')"
    by (simp add: override_def)
qed

theorem fix_discrepencies_depends_on_draws_witness:
  "fix_discrepencies (\<lambda>k. if k = 0 then 2 else 7) [registry_row (PInt 0)] [catalog_zero]
     = fix_discrepencies (\<lambda>k. 2) [registry_row (PInt 0)] [catalog_zero] \<and>
   fix_discrepencies (\<lambda>k. 2) [registry_row (PInt 0)] [catalog_zero]
     = Inr ([(override (registry_row (PInt 0)) catalog_zero)(''name'' := PStr ''BLAH BLAH BLAH'')],
            []) \<and>
   (0::nat) < length [registry_row (PInt 0)] \<and>
   format (([registry_row (PInt 0)] ! 0) ''norad_number'') = Inr (PInt 0) \<and>
   loc [catalog_zero] (PInt 0) = Inr catalog_zero \<and>
   ([(override (registry_row (PInt 0)) catalog_zero)(''name'' := PStr ''BLAH BLAH BLAH'')] ! 0)
      ''name'' = PStr ''BLAH BLAH BLAH''"
proof -
  let ?reg = "registry_row (PInt 0)"
  let ?out = "(override ?reg catalog_zero)(''name'' := PStr ''BLAH BLAH BLAH'')"
  note p = fix_discrepencies_depends_on_draws
  have g: "\<forall>j. j < length [?reg] \<longrightarrow> (if j = 0 then 2 else 7) = (2::int)" by simp
  have 1: "fix_discrepencies (\<lambda>k. if k = 0 then 2 else 7) [?reg] [catalog_zero]
     = fix_discrepencies (\<lambda>k. 2) [?reg] [catalog_zero]"
    using p [where rnd = "\<lambda>k. if k = 0 then 2 else 7" and rnd' = "\<lambda>k. 2" and satdb = "[?reg]"
        and satcat = "[catalog_zero]", THEN conjunct1] g
    by blast
  have h: "fix_discrepencies (\<lambda>k. 2) [?reg] [catalog_zero] = Inr ([?out], [])"
    "(0::nat) < length [?reg]"
    "format (([?reg] ! 0) ''norad_number'') = Inr (PInt 0)"
    "loc [catalog_zero] (PInt 0) = Inr catalog_zero"
    by (simp_all add: fix_discrepencies_def fix_row_def loc_def registry_row_def)
  have "([?out] ! 0) ''name''
      = (if (2::int) < 3 then PStr ''BLAH BLAH BLAH'' else catalog_zero ''name'')"
    using p [where rnd = "\<lambda>k. 2" and satdb = "[?reg]" and satcat = "[catalog_zero]"
        and fixed = "[?out]" and warnings = "[]" and i = 0 and key = "PInt 0"
        and r = catalog_zero, THEN conjunct2] h
    by blast
  then have 2: "([?out] ! 0) ''name'' = PStr ''BLAH BLAH BLAH''" by simp
  from 1 h 2 show ?thesis by blast
qed

text \<open>
  The claim as it was stated fails: two runs on the same two frames differ when the draw
  is 1 in one and 3 in the other.
\<close>

theorem fix_discrepencies_not_deterministic:
  "fix_discrepencies (\<lambda>k. 1) [registry_row (PInt 0)] [catalog_zero]
     \<noteq> fix_discrepencies (\<lambda>k. 3) [registry_row (PInt 0)] [catalog_zero]"
  by (simp add: frame_eval fun_eq_iff)

subsection \<open>Rows whose lookup fails\<close>

lemma fix_row_warning_of:
  assumes "fix_row satcat draw satdb_row = Inr (fixed, w)"
  shows "w = warning_of satcat satdb_row"
  using assms
  by (auto simp: fix_row_def warning_of_def split: sum.splits if_splits)

lemma fix_loop_warnings:
  "fix_loop satcat rnd k rows = Inr (rows', ws) \<Longrightarrow> ws = List.map_filter (warning_of satcat) rows"
proof (induction rows arbitrary: k rows' ws)
  case Nil
  then show ?case by (simp add: List.map_filter_simps)
next
  case (Cons r rows)
  from Cons.prems obtain fixed w rest ws' where
    r: "fix_row satcat (rnd k) r = Inr (fixed, w)" and
    l: "fix_loop satcat rnd (case w of None \<Rightarrow> k + 1 | Some x \<Rightarrow> k) rows = Inr (rest, ws')" and
    e: "ws = (case w of None \<Rightarrow> ws' | Some x \<Rightarrow> x # ws')"
    by (auto split: sum.splits prod.splits)
  have w: "warning_of satcat r = w" using fix_row_warning_of [OF r] by simp
  have "ws' = List.map_filter (warning_of satcat) rows" using l by (rule Cons.IH)
  with e show ?case unfolding List.map_filter_simps w by (cases w) simp_all
qed

lemma fix_loop_total:
  assumes "\<forall>r\<in>set rows. \<forall>y m d. r ''norad_number'' \<noteq> PDate y m d"
  shows "\<exists>rows' ws. fix_loop satcat rnd k rows = Inr (rows', ws)"
  using assms
proof (induction rows arbitrary: k)
  case Nil
  then show ?case by simp
next
  case (Cons r rows)
  have "\<exists>key. format (r ''norad_number'') = Inr key"
    using Cons.prems by (cases "r ''norad_number''") auto
  then obtain key where key: "format (r ''norad_number'') = Inr key" by blast
  have "\<exists>fixed w. fix_row satcat (rnd k) r = Inr (fixed, w)"
  proof (cases "loc satcat key")
    case (Inl e)
    with key show ?thesis by (simp add: fix_row_unmatched)
  next
    case (Inr c)
    with key show ?thesis by (simp add: fix_row_matched)
  qed
  then obtain fixed w where f: "fix_row satcat (rnd k) r = Inr (fixed, w)" by blast
  from Cons have "\<exists>rows' ws.
      fix_loop satcat rnd (case w of None \<Rightarrow> k + 1 | Some x \<Rightarrow> k) rows = Inr (rows', ws)"
    by simp
  then show ?case using f by auto
qed

text \<open>
  When no catalog-number cell of the registry is a date (the loader produces none), the
  run ends normally whatever the lookups do. Its warnings are the keys of the rows whose
  lookup raised \<^verbatim>\<open>KeyError\<close>, one for each such row and in the order of the rows, and
  each of these rows is left as it was.
\<close>

theorem fix_discrepencies_failed_lookups:
  "(\<forall>r\<in>set satdb. \<forall>y m d. r ''norad_number'' \<noteq> PDate y m d) \<longrightarrow>
     (\<exists>fixed. fix_discrepencies rnd satdb satcat
                = Inr (fixed, List.map_filter (warning_of satcat) satdb)
        \<and> length fixed = length satdb
        \<and> (\<forall>i key. i < length satdb \<and> warning_of satcat (satdb ! i) = Some key
              \<longrightarrow> fixed ! i = satdb ! i))"
proof
  assume "\<forall>r\<in>set satdb. \<forall>y m d. r ''norad_number'' \<noteq> PDate y m d"
  then obtain fixed ws where f: "fix_loop satcat rnd 0 satdb = Inr (fixed, ws)"
    using fix_loop_total by blast
  then have w: "ws = List.map_filter (warning_of satcat) satdb" by (rule fix_loop_warnings)
  have l: "length fixed = length satdb" using f by (rule fix_loop_length)
  have "fixed ! i = satdb ! i"
    if "i < length satdb" and "warning_of satcat (satdb ! i) = Some key" for i key
  proof -
    from that(2) obtain k e where "format ((satdb ! i) ''norad_number'') = Inr k"
      and "loc satcat k = Inl e"
      by (auto simp: warning_of_def split: sum.splits)
    then show ?thesis
      using fix_discrepencies_unmatched_row [of rnd satdb satcat fixed ws i k e] f that(1)
      by (simp add: fix_discrepencies_def)
  qed
  with f w l show "\<exists>fixed. fix_discrepencies rnd satdb satcat
                = Inr (fixed, List.map_filter (warning_of satcat) satdb)
        \<and> length fixed = length satdb
        \<and> (\<forall>i key. i < length satdb \<and> warning_of satcat (satdb ! i) = Some key
              \<longrightarrow> fixed ! i = satdb ! i)"
    by (auto simp: fix_discrepencies_def)
qed

theorem fix_discrepencies_failed_lookups_witness:
  "registry_row (PStr '' n/a '') ''norad_number'' = PStr '' n/a '' \<and>
   warning_of [catalog_iss] (registry_row (PStr '' n/a '')) = Some (PStr ''n/a'') \<and>
   fix_discrepencies (\<lambda>k. 1) [registry_row (PStr '' n/a '')] [catalog_iss]
     = Inr ([registry_row (PStr '' n/a '')], [PStr ''n/a''])"
proof -
  let ?reg = "registry_row (PStr '' n/a '')"
  have c: "?reg ''norad_number'' = PStr '' n/a ''"
    by (simp add: registry_row_def)
  have f: "format_str '' n/a '' = PStr ''n/a''"
    by (simp add: format_str_def str_eval num_eval date_eval)
  have w: "warning_of [catalog_iss] ?reg = Some (PStr ''n/a'')"
    by (simp add: warning_of_def c f loc_def)
  have d: "\<forall>r\<in>set [?reg]. \<forall>y m d. r ''norad_number'' \<noteq> PDate y m d"
    by (simp add: c)
  from fix_discrepencies_failed_lookups [of "[?reg]" "\<lambda>k. 1" "[catalog_iss]"] d
  obtain fixed where
    r: "fix_discrepencies (\<lambda>k. 1) [?reg] [catalog_iss]
          = Inr (fixed, List.map_filter (warning_of [catalog_iss]) [?reg])"
    and l: "length fixed = length [?reg]"
    and u: "\<forall>i key. i < length [?reg] \<and> warning_of [catalog_iss] ([?reg] ! i) = Some key
              \<longrightarrow> fixed ! i = [?reg] ! i"
    by blast
  from u w have "fixed ! 0 = ?reg" by simp
  with l have "fixed = [?reg]" by (cases fixed) simp_all
  with r w have "fix_discrepencies (\<lambda>k. 1) [?reg] [catalog_iss] = Inr ([?reg], [PStr ''n/a''])"
    by (simp add: List.map_filter_simps)
  with c w show ?thesis by blast
qed

end
